theory Spec2Isabelle
  imports Complex_Main
begin

section \<open>The ASCOM telescope client of the Telescope Control plug-in\<close>

text \<open>
  A shallow embedding of \<^verbatim>\<open>TelescopeClientAscom.cpp\<close>. The client object is a
  record, the automation driver behind the \<^verbatim>\<open>QAxObject\<close> pointer is a deterministic
  transition system over an arbitrary state type \<open>'d\<close>, and every property read,
  property write and method call that reaches the driver is appended to an access log,
  so that statements about which driver calls an operation issues can be made.
  The operations are given first for a driver that raises no exception, then with the
  driver's exception signal connected to the fault handler.
  \<^verbatim>\<open>double\<close> is idealised as \<open>real\<close>, \<^verbatim>\<open>qint64\<close> is \<open>int\<close> with the wrap-around of
  the addition written out.
\<close>

subsection \<open>Driver surface\<close>

datatype Equinox = EquinoxJ2000 | EquinoxJNow

datatype prop_name =
    P_CONNECTED | P_PARKED | P_TRACKING | P_CAN_SLEW | P_CAN_SLEW_ASYNCHRONOUSLY
  | P_CAN_TRACK | P_CAN_UNPARK | P_RA | P_DEC | P_EQUATORIAL_SYSTEM

datatype method_name = M_UNPARK | M_SLEW | M_SLEW_ASYNCHRONOUSLY

text \<open>The part of \<^verbatim>\<open>QVariant\<close> that the client uses: an invalid variant converts to
  \<^verbatim>\<open>false\<close> and to \<^verbatim>\<open>0.0\<close>.\<close>

datatype QVariant = VInvalid | VBool bool | VDouble real

fun toBool :: "QVariant \<Rightarrow> bool" where
  "toBool VInvalid = False"
| "toBool (VBool b) = b"
| "toBool (VDouble x) = (x \<noteq> 0)"

fun toDouble :: "QVariant \<Rightarrow> real" where
  "toDouble VInvalid = 0"
| "toDouble (VBool b) = (if b then 1 else 0)"
| "toDouble (VDouble x) = x"

text \<open>One entry of the access log: what was asked of the driver, and for a read the
  value it answered.\<close>

datatype access =
    Read prop_name QVariant
  | Write prop_name QVariant
  | Invoke method_name "real list"

text \<open>The driver as the client sees it. A read may change the driver's state (the mount
  moves, a link drops), so it returns the new state with the value.\<close>

record 'd driver_ops =
  property :: "prop_name \<Rightarrow> 'd \<Rightarrow> QVariant \<times> 'd"
  setProperty :: "prop_name \<Rightarrow> QVariant \<Rightarrow> 'd \<Rightarrow> 'd"
  dynamicCall :: "method_name \<Rightarrow> real list \<Rightarrow> 'd \<Rightarrow> 'd"

text \<open>The member \<^verbatim>\<open>QAxObject* driver\<close>: the null pointer, an object on which
  \<^verbatim>\<open>setControl\<close> found no control (\<^verbatim>\<open>isNull()\<close> holds), or a bound control.\<close>

datatype 'd handle = NullPtr | AxNull | Ax 'd

datatype error = NullPointerDereference

definition bindE :: "error + 'a \<Rightarrow> ('a \<Rightarrow> error + 'b) \<Rightarrow> error + 'b" where
  "bindE m f = (case m of Inl e \<Rightarrow> Inl e | Inr x \<Rightarrow> f x)"

subsection \<open>Collaborators outside the file\<close>

text \<open>
  The host services the file calls: the refresh interval constant of the header, the
  two conversions of \<^verbatim>\<open>StelUtils\<close> and the navigator's change of frame from the equinox
  of date to J2000. \<open>'v\<close> is \<^verbatim>\<open>Vec3d\<close>.

  Modelled from the spec: \<open>j2000ToEquinoxEqu\<close> is the navigator's conversion in the
  other direction (standard epoch to current epoch); the file never calls it.
\<close>

record 'v host =
  POSITION_REFRESH_INTERVAL :: int
  spheToRect :: "real \<Rightarrow> real \<Rightarrow> 'v"
  rectToSphe :: "'v \<Rightarrow> real \<times> real"
  equinoxEquToJ2000 :: "'v \<Rightarrow> 'v"
  j2000ToEquinoxEqu :: "'v \<Rightarrow> 'v"

text \<open>Addition on \<^verbatim>\<open>qint64\<close>, wrapping in two's complement.\<close>

definition qint64_add :: "int \<Rightarrow> int \<Rightarrow> int" where
  "qint64_add a b = (a + b + 2 ^ 63) mod 2 ^ 64 - 2 ^ 63"

subsection \<open>\<^verbatim>\<open>QString::arg\<close>\<close>

text \<open>
  \<^verbatim>\<open>QString::arg\<close> replaces every occurrence of the lowest numbered place marker
  (\<^verbatim>\<open>%\<close>, an optional \<^verbatim>\<open>L\<close>, one or two digits) and returns the string unchanged
  when there is none. \<open>parseEscape\<close> reads the marker that may follow a \<^verbatim>\<open>%\<close> and
  gives its number and the count of characters it takes.
\<close>

definition digitValue :: "char \<Rightarrow> nat option" where
  "digitValue c =
     (let n = (of_char c :: nat) in if 48 \<le> n \<and> n \<le> 57 then Some (n - 48) else None)"

definition parseDigits :: "string \<Rightarrow> (nat \<times> nat) option" where
  "parseDigits s =
     (case s of
        [] \<Rightarrow> None
      | c # r \<Rightarrow>
          (case digitValue c of
             None \<Rightarrow> None
           | Some a \<Rightarrow>
               (case r of
                  [] \<Rightarrow> Some (a, 1)
                | c2 # r2 \<Rightarrow>
                    (case digitValue c2 of
                       None \<Rightarrow> Some (a, 1)
                     | Some b \<Rightarrow> Some (10 * a + b, 2)))))"

definition parseEscape :: "string \<Rightarrow> (nat \<times> nat) option" where
  "parseEscape s =
     (case s of
        [] \<Rightarrow> None
      | c # r \<Rightarrow>
          if c = CHR ''L'' then map_option (\<lambda>(n, k). (n, Suc k)) (parseDigits r)
          else parseDigits s)"

fun minEscape :: "string \<Rightarrow> nat option" where
  "minEscape [] = None"
| "minEscape (c # s) =
     (if c = CHR ''%'' then
        (case parseEscape s of
           None \<Rightarrow> minEscape s
         | Some (n, k) \<Rightarrow>
             (case minEscape s of None \<Rightarrow> Some n | Some m \<Rightarrow> Some (min n m)))
      else minEscape s)"

text \<open>\<open>replaceEscapes n a skip s\<close>: \<open>skip\<close> counts the characters of a replaced marker
  that are still to be dropped.\<close>

fun replaceEscapes :: "nat \<Rightarrow> string \<Rightarrow> nat \<Rightarrow> string \<Rightarrow> string" where
  "replaceEscapes n a skip [] = []"
| "replaceEscapes n a (Suc skip) (c # s) = replaceEscapes n a skip s"
| "replaceEscapes n a 0 (c # s) =
     (if c = CHR ''%'' then
        (case parseEscape s of
           None \<Rightarrow> c # replaceEscapes n a 0 s
         | Some (m, k) \<Rightarrow>
             if m = n then a @ replaceEscapes n a k s
             else c # replaceEscapes n a 0 s)
      else c # replaceEscapes n a 0 s)"

definition arg :: "string \<Rightarrow> string \<Rightarrow> string" where
  "arg s a = (case minEscape s of None \<Rightarrow> s | Some n \<Rightarrow> replaceEscapes n a 0 s)"

fun decimal :: "nat \<Rightarrow> string" where
  "decimal n =
     (if n < 10 then [char_of (48 + n)]
      else decimal (n div 10) @ [char_of (48 + n mod 10)])"

declare decimal.simps [simp del]

definition number :: "int \<Rightarrow> string" where
  "number i = (if i < 0 then CHR ''-'' # decimal (nat (- i)) else decimal (nat i))"

definition arg_int :: "string \<Rightarrow> int \<Rightarrow> string" where
  "arg_int s i = arg s (number i)"

subsection \<open>The client object\<close>

text \<open>
  The members of the class and of its base that the file uses, followed by the two
  observation fields: the log of driver accesses and the \<^verbatim>\<open>ascomError\<close> signals
  emitted so far.

  Modelled from the spec: \<^verbatim>\<open>InterpolatedPosition\<close> is declared outside the file;
  \<open>interpolatedPosition\<close> keeps every sample handed to its \<^verbatim>\<open>add\<close> (direction, client
  time, server time), newest last.
\<close>

record ('d, 'v) client =
  name :: string
  equinox :: Equinox
  driverId :: string
  driver :: "'d handle"
  timeToGetPosition :: int
  interpolatedPosition :: "('v \<times> int \<times> int) list"
  accessLog :: "access list"
  emitted :: "string list"

text \<open>The three ways the file reaches the driver through the pointer. Through the null
  pointer each is an error; on an object without control Qt answers an invalid variant
  and nothing reaches a driver.\<close>

definition drv_property ::
  "'d driver_ops \<Rightarrow> prop_name \<Rightarrow> ('d, 'v) client \<Rightarrow> error + (QVariant \<times> ('d, 'v) client)" where
  "drv_property ops p c =
     (case driver c of
        NullPtr \<Rightarrow> Inl NullPointerDereference
      | AxNull \<Rightarrow> Inr (VInvalid, c)
      | Ax d \<Rightarrow>
          (case property ops p d of
             (v, d') \<Rightarrow> Inr (v, c\<lparr>driver := Ax d', accessLog := accessLog c @ [Read p v]\<rparr>)))"

definition drv_setProperty ::
  "'d driver_ops \<Rightarrow> prop_name \<Rightarrow> QVariant \<Rightarrow> ('d, 'v) client \<Rightarrow> error + ('d, 'v) client" where
  "drv_setProperty ops p v c =
     (case driver c of
        NullPtr \<Rightarrow> Inl NullPointerDereference
      | AxNull \<Rightarrow> Inr c
      | Ax d \<Rightarrow>
          Inr (c\<lparr>driver := Ax (setProperty ops p v d), accessLog := accessLog c @ [Write p v]\<rparr>))"

definition drv_dynamicCall ::
  "'d driver_ops \<Rightarrow> method_name \<Rightarrow> real list \<Rightarrow> ('d, 'v) client \<Rightarrow> error + ('d, 'v) client" where
  "drv_dynamicCall ops m as c =
     (case driver c of
        NullPtr \<Rightarrow> Inl NullPointerDereference
      | AxNull \<Rightarrow> Inr c
      | Ax d \<Rightarrow>
          Inr (c\<lparr>driver := Ax (dynamicCall ops m as d), accessLog := accessLog c @ [Invoke m as]\<rparr>))"

definition deleteDriver :: "('d, 'v) client \<Rightarrow> ('d, 'v) client" where
  "deleteDriver c = (case driver c of NullPtr \<Rightarrow> c | _ \<Rightarrow> c\<lparr>driver := NullPtr\<rparr>)"

definition isInitialized :: "('d, 'v) client \<Rightarrow> bool" where
  "isInitialized c = (case driver c of Ax d \<Rightarrow> True | _ \<Rightarrow> False)"

definition isConnected ::
  "'d driver_ops \<Rightarrow> ('d, 'v) client \<Rightarrow> error + (bool \<times> ('d, 'v) client)" where
  "isConnected ops c =
     (if \<not> isInitialized c then Inr (False, c)
      else bindE (drv_property ops P_CONNECTED c) (\<lambda>(v, c). Inr (toBool v, c)))"

definition prepareCommunication :: "('d, 'v) client \<Rightarrow> bool" where
  "prepareCommunication c = (if \<not> isInitialized c then False else True)"

subsection \<open>Construction\<close>

text \<open>
  \<open>resolve\<close> stands for \<^verbatim>\<open>setControl(driverId)\<close>: the state of the control it binds,
  or \<open>None\<close> when the object stays null. \<open>junk\<close> is the indeterminate content of
  \<open>timeToGetPosition\<close>, which the early return leaves unset; \<open>now\<close> is the reading of
  \<^verbatim>\<open>getNow()\<close>.
\<close>

definition TelescopeClientAscom ::
  "'v host \<Rightarrow> 'd driver_ops \<Rightarrow> (string \<Rightarrow> 'd option) \<Rightarrow> int \<Rightarrow> int \<Rightarrow>
   string \<Rightarrow> string \<Rightarrow> Equinox \<Rightarrow> error + ('d, 'v) client" where
  "TelescopeClientAscom env ops resolve junk now nm params eq =
     (let c = \<lparr>name = nm, equinox = eq, driverId = params,
               driver = (case resolve params of None \<Rightarrow> AxNull | Some d \<Rightarrow> Ax d),
               timeToGetPosition = junk, interpolatedPosition = [],
               accessLog = [], emitted = []\<rparr>
      in if driver c = AxNull then Inr c
         else
           bindE (drv_property ops P_CAN_SLEW c) (\<lambda>(canSlew, c).
           bindE (drv_setProperty ops P_CONNECTED (VBool True) c) (\<lambda>c.
           bindE (drv_property ops P_CONNECTED c) (\<lambda>(connectionAttemptSucceeded, c).
           bindE (Inr (if \<not> toBool connectionAttemptSucceeded then deleteDriver c else c)) (\<lambda>c.
           bindE (drv_property ops P_PARKED c) (\<lambda>(isParked, c).
           bindE (if toBool isParked then
                    bindE (drv_property ops P_CAN_UNPARK c) (\<lambda>(canUnpark, c).
                      Inr (if \<not> toBool canUnpark then deleteDriver c else c))
                  else Inr c) (\<lambda>c.
           Inr (c\<lparr>timeToGetPosition :=
                     qint64_add now (POSITION_REFRESH_INTERVAL env)\<rparr>))))))))"

subsection \<open>Polling\<close>

text \<open>The part of \<^verbatim>\<open>performCommunication\<close> after the parked check: the throttle and the
  position read. \<open>now\<close>, \<open>serverTime\<close> and \<open>clientTime\<close> are its three readings of
  \<^verbatim>\<open>getNow()\<close>, in order.\<close>

definition getPosition ::
  "'v host \<Rightarrow> 'd driver_ops \<Rightarrow> int \<Rightarrow> int \<Rightarrow> int \<Rightarrow> ('d, 'v) client \<Rightarrow> error + ('d, 'v) client" where
  "getPosition env ops now serverTime clientTime c =
     (if now < timeToGetPosition c then Inr c
      else
        bindE (Inr (c\<lparr>timeToGetPosition :=
                        qint64_add now (POSITION_REFRESH_INTERVAL env)\<rparr>)) (\<lambda>c.
        bindE (drv_property ops P_RA c) (\<lambda>(ra, c).
        bindE (drv_property ops P_DEC c) (\<lambda>(dec, c).
          let raHours = toDouble ra;
              decDegrees = toDouble dec;
              raRadians = raHours * (pi / 12);
              decRadians = decDegrees * (pi / 180);
              coordinates = spheToRect env raRadians decRadians;
              j2000Coordinates =
                (if equinox c = EquinoxJNow then equinoxEquToJ2000 env coordinates
                 else coordinates)
          in Inr (c\<lparr>interpolatedPosition :=
                      interpolatedPosition c @ [(j2000Coordinates, clientTime, serverTime)]\<rparr>)))))"

definition checkParked ::
  "'v host \<Rightarrow> 'd driver_ops \<Rightarrow> int \<Rightarrow> int \<Rightarrow> int \<Rightarrow> ('d, 'v) client \<Rightarrow> error + ('d, 'v) client" where
  "checkParked env ops now serverTime clientTime c =
     bindE (drv_property ops P_PARKED c) (\<lambda>(isParked, c).
       if toBool isParked then Inr c
       else getPosition env ops now serverTime clientTime c)"

definition performCommunication ::
  "'v host \<Rightarrow> 'd driver_ops \<Rightarrow> int \<Rightarrow> int \<Rightarrow> int \<Rightarrow> ('d, 'v) client \<Rightarrow> error + ('d, 'v) client" where
  "performCommunication env ops now serverTime clientTime c =
     (if \<not> isInitialized c then Inr c
      else
        bindE (isConnected ops c) (\<lambda>(connected, c).
          if \<not> connected then
            bindE (drv_setProperty ops P_CONNECTED (VBool True) c) (\<lambda>c.
            bindE (drv_property ops P_CONNECTED c) (\<lambda>(connectionAttemptSucceeded, c).
              if \<not> toBool connectionAttemptSucceeded then Inr c
              else checkParked env ops now serverTime clientTime c))
          else checkParked env ops now serverTime clientTime c))"

subsection \<open>Go to\<close>

text \<open>\<^verbatim>\<open>telescopeGoto\<close> in its three stages, each the continuation of the one before:
  the parked check, the tracking check, and the conversion with the slew call.\<close>

definition sendGoto ::
  "'v host \<Rightarrow> 'd driver_ops \<Rightarrow> 'v \<Rightarrow> ('d, 'v) client \<Rightarrow> error + ('d, 'v) client" where
  "sendGoto env ops j2000Coordinates c =
     (let targetCoordinates =
            (if equinox c = EquinoxJNow then equinoxEquToJ2000 env j2000Coordinates
             else j2000Coordinates);
          (raRadians, decRadians) = rectToSphe env targetCoordinates;
          raHours = raRadians * (12 / pi);
          decDegrees = decRadians * (180 / pi)
      in
        bindE (drv_property ops P_CAN_SLEW_ASYNCHRONOUSLY c) (\<lambda>(canSlewAsynchronously, c).
          if toBool canSlewAsynchronously then
            drv_dynamicCall ops M_SLEW_ASYNCHRONOUSLY [raHours, decDegrees] c
          else
            bindE (drv_property ops P_CAN_SLEW c) (\<lambda>(canSlew, c).
              if toBool canSlew then drv_dynamicCall ops M_SLEW [raHours, decDegrees] c
              else Inr c)))"

definition checkTracking ::
  "'v host \<Rightarrow> 'd driver_ops \<Rightarrow> 'v \<Rightarrow> ('d, 'v) client \<Rightarrow> error + ('d, 'v) client" where
  "checkTracking env ops j2000Coordinates c =
     bindE (drv_property ops P_TRACKING c) (\<lambda>(isTracking, c).
       if \<not> toBool isTracking then
         bindE (drv_property ops P_CAN_TRACK c) (\<lambda>(canTrack, c).
           if toBool canTrack then
             bindE (drv_setProperty ops P_TRACKING (VBool True) c) (\<lambda>c.
             bindE (drv_property ops P_TRACKING c) (\<lambda>(isTracking, c).
               if \<not> toBool isTracking then Inr c
               else sendGoto env ops j2000Coordinates c))
           else Inr c)
       else sendGoto env ops j2000Coordinates c)"

definition checkUnpark ::
  "'v host \<Rightarrow> 'd driver_ops \<Rightarrow> 'v \<Rightarrow> ('d, 'v) client \<Rightarrow> error + ('d, 'v) client" where
  "checkUnpark env ops j2000Coordinates c =
     bindE (drv_property ops P_PARKED c) (\<lambda>(isParked, c).
       if toBool isParked then
         bindE (drv_property ops P_CAN_UNPARK c) (\<lambda>(canUnpark, c).
           if toBool canUnpark then
             bindE (drv_dynamicCall ops M_UNPARK [] c) (\<lambda>c.
               checkTracking env ops j2000Coordinates c)
           else Inr c)
       else checkTracking env ops j2000Coordinates c)"

definition telescopeGoto ::
  "'v host \<Rightarrow> 'd driver_ops \<Rightarrow> 'v \<Rightarrow> ('d, 'v) client \<Rightarrow> error + ('d, 'v) client" where
  "telescopeGoto env ops j2000Coordinates c =
     (if \<not> isInitialized c then Inr c
      else
        bindE (isConnected ops c) (\<lambda>(connected, c).
          if \<not> connected then
            bindE (drv_setProperty ops P_CONNECTED (VBool True) c) (\<lambda>c.
            bindE (drv_property ops P_CONNECTED c) (\<lambda>(connectionAttemptSucceeded, c).
              if \<not> toBool connectionAttemptSucceeded then Inr c
              else checkUnpark env ops j2000Coordinates c))
          else checkUnpark env ops j2000Coordinates c))"

subsection \<open>The fault handler\<close>

definition errorMessage :: "string \<Rightarrow> int \<Rightarrow> string \<Rightarrow> string \<Rightarrow> string" where
  "errorMessage nm code source desc =
     arg (arg_int (arg
       (''%1: ASCOM driver error:'' @ [CHR 0x0A] @ ''Code: %2'' @ [CHR 0x0A] @
        ''Source: %3'' @ [CHR 0x0A] @ ''Description: %4'') nm) code) desc"

definition handleDriverException ::
  "int \<Rightarrow> string \<Rightarrow> string \<Rightarrow> string \<Rightarrow> ('d, 'v) client \<Rightarrow> ('d, 'v) client" where
  "handleDriverException code source desc help c =
     (let msg = errorMessage (name c) code source desc;
          c = deleteDriver c
      in c\<lparr>emitted := emitted c @ [msg]\<rparr>)"

subsection \<open>The exception signal\<close>

text \<open>
  The constructor connects \<^verbatim>\<open>handleDriverException\<close> to the driver's
  \<^verbatim>\<open>exception\<close> signal, which the driver raises inside a property read, a property
  write or a method call; the slot then runs before that call returns to the
  operation that made it. \<open>'d exception_signal\<close> says for each driver call, by the
  state of the driver it is made in, whether the signal is raised during it and with
  which code, source, description and help text. \<open>silent\<close> is the driver that never
  raises it.
\<close>

type_synonym fault = "int \<times> string \<times> string \<times> string"

record 'd exception_signal =
  onProperty :: "prop_name \<Rightarrow> 'd \<Rightarrow> fault option"
  onSetProperty :: "prop_name \<Rightarrow> QVariant \<Rightarrow> 'd \<Rightarrow> fault option"
  onDynamicCall :: "method_name \<Rightarrow> real list \<Rightarrow> 'd \<Rightarrow> fault option"

definition silent :: "'d exception_signal" where
  "silent = \<lparr>onProperty = (\<lambda>p d. None), onSetProperty = (\<lambda>p v d. None),
             onDynamicCall = (\<lambda>m as d. None)\<rparr>"

fun deliver :: "fault option \<Rightarrow> ('d, 'v) client \<Rightarrow> ('d, 'v) client" where
  "deliver None c = c"
| "deliver (Some (code, source, desc, help)) c = handleDriverException code source desc help c"

text \<open>The three driver calls with the signal connected: the call is made as before
  and the slot, if the signal is raised, runs on the client the call left.\<close>

definition sig_property ::
  "'d driver_ops \<Rightarrow> 'd exception_signal \<Rightarrow> prop_name \<Rightarrow> ('d, 'v) client \<Rightarrow>
   error + (QVariant \<times> ('d, 'v) client)" where
  "sig_property ops sig p c =
     (case driver c of
        Ax d \<Rightarrow>
          bindE (drv_property ops p c) (\<lambda>(v, c'). Inr (v, deliver (onProperty sig p d) c'))
      | _ \<Rightarrow> drv_property ops p c)"

definition sig_setProperty ::
  "'d driver_ops \<Rightarrow> 'd exception_signal \<Rightarrow> prop_name \<Rightarrow> QVariant \<Rightarrow> ('d, 'v) client \<Rightarrow>
   error + ('d, 'v) client" where
  "sig_setProperty ops sig p v c =
     (case driver c of
        Ax d \<Rightarrow>
          bindE (drv_setProperty ops p v c) (\<lambda>c'. Inr (deliver (onSetProperty sig p v d) c'))
      | _ \<Rightarrow> drv_setProperty ops p v c)"

definition sig_dynamicCall ::
  "'d driver_ops \<Rightarrow> 'd exception_signal \<Rightarrow> method_name \<Rightarrow> real list \<Rightarrow> ('d, 'v) client \<Rightarrow>
   error + ('d, 'v) client" where
  "sig_dynamicCall ops sig m as c =
     (case driver c of
        Ax d \<Rightarrow>
          bindE (drv_dynamicCall ops m as c) (\<lambda>c'. Inr (deliver (onDynamicCall sig m as d) c'))
      | _ \<Rightarrow> drv_dynamicCall ops m as c)"

text \<open>The operations of a constructed session over these calls: the same source lines
  as above, where each \<^verbatim>\<open>driver->\<close> call may now run the slot.\<close>

definition isConnected_sig ::
  "'d driver_ops \<Rightarrow> 'd exception_signal \<Rightarrow> ('d, 'v) client \<Rightarrow>
   error + (bool \<times> ('d, 'v) client)" where
  "isConnected_sig ops sig c =
     (if \<not> isInitialized c then Inr (False, c)
      else bindE (sig_property ops sig P_CONNECTED c) (\<lambda>(v, c). Inr (toBool v, c)))"

definition getPosition_sig ::
  "'v host \<Rightarrow> 'd driver_ops \<Rightarrow> 'd exception_signal \<Rightarrow> int \<Rightarrow> int \<Rightarrow> int \<Rightarrow>
   ('d, 'v) client \<Rightarrow> error + ('d, 'v) client" where
  "getPosition_sig env ops sig now serverTime clientTime c =
     (if now < timeToGetPosition c then Inr c
      else
        bindE (Inr (c\<lparr>timeToGetPosition :=
                        qint64_add now (POSITION_REFRESH_INTERVAL env)\<rparr>)) (\<lambda>c.
        bindE (sig_property ops sig P_RA c) (\<lambda>(ra, c).
        bindE (sig_property ops sig P_DEC c) (\<lambda>(dec, c).
          let raHours = toDouble ra;
              decDegrees = toDouble dec;
              raRadians = raHours * (pi / 12);
              decRadians = decDegrees * (pi / 180);
              coordinates = spheToRect env raRadians decRadians;
              j2000Coordinates =
                (if equinox c = EquinoxJNow then equinoxEquToJ2000 env coordinates
                 else coordinates)
          in Inr (c\<lparr>interpolatedPosition :=
                      interpolatedPosition c @ [(j2000Coordinates, clientTime, serverTime)]\<rparr>)))))"

definition checkParked_sig ::
  "'v host \<Rightarrow> 'd driver_ops \<Rightarrow> 'd exception_signal \<Rightarrow> int \<Rightarrow> int \<Rightarrow> int \<Rightarrow>
   ('d, 'v) client \<Rightarrow> error + ('d, 'v) client" where
  "checkParked_sig env ops sig now serverTime clientTime c =
     bindE (sig_property ops sig P_PARKED c) (\<lambda>(isParked, c).
       if toBool isParked then Inr c
       else getPosition_sig env ops sig now serverTime clientTime c)"

definition performCommunication_sig ::
  "'v host \<Rightarrow> 'd driver_ops \<Rightarrow> 'd exception_signal \<Rightarrow> int \<Rightarrow> int \<Rightarrow> int \<Rightarrow>
   ('d, 'v) client \<Rightarrow> error + ('d, 'v) client" where
  "performCommunication_sig env ops sig now serverTime clientTime c =
     (if \<not> isInitialized c then Inr c
      else
        bindE (isConnected_sig ops sig c) (\<lambda>(connected, c).
          if \<not> connected then
            bindE (sig_setProperty ops sig P_CONNECTED (VBool True) c) (\<lambda>c.
            bindE (sig_property ops sig P_CONNECTED c) (\<lambda>(connectionAttemptSucceeded, c).
              if \<not> toBool connectionAttemptSucceeded then Inr c
              else checkParked_sig env ops sig now serverTime clientTime c))
          else checkParked_sig env ops sig now serverTime clientTime c))"

definition sendGoto_sig ::
  "'v host \<Rightarrow> 'd driver_ops \<Rightarrow> 'd exception_signal \<Rightarrow> 'v \<Rightarrow> ('d, 'v) client \<Rightarrow>
   error + ('d, 'v) client" where
  "sendGoto_sig env ops sig j2000Coordinates c =
     (let targetCoordinates =
            (if equinox c = EquinoxJNow then equinoxEquToJ2000 env j2000Coordinates
             else j2000Coordinates);
          (raRadians, decRadians) = rectToSphe env targetCoordinates;
          raHours = raRadians * (12 / pi);
          decDegrees = decRadians * (180 / pi)
      in
        bindE (sig_property ops sig P_CAN_SLEW_ASYNCHRONOUSLY c) (\<lambda>(canSlewAsynchronously, c).
          if toBool canSlewAsynchronously then
            sig_dynamicCall ops sig M_SLEW_ASYNCHRONOUSLY [raHours, decDegrees] c
          else
            bindE (sig_property ops sig P_CAN_SLEW c) (\<lambda>(canSlew, c).
              if toBool canSlew then sig_dynamicCall ops sig M_SLEW [raHours, decDegrees] c
              else Inr c)))"

definition checkTracking_sig ::
  "'v host \<Rightarrow> 'd driver_ops \<Rightarrow> 'd exception_signal \<Rightarrow> 'v \<Rightarrow> ('d, 'v) client \<Rightarrow>
   error + ('d, 'v) client" where
  "checkTracking_sig env ops sig j2000Coordinates c =
     bindE (sig_property ops sig P_TRACKING c) (\<lambda>(isTracking, c).
       if \<not> toBool isTracking then
         bindE (sig_property ops sig P_CAN_TRACK c) (\<lambda>(canTrack, c).
           if toBool canTrack then
             bindE (sig_setProperty ops sig P_TRACKING (VBool True) c) (\<lambda>c.
             bindE (sig_property ops sig P_TRACKING c) (\<lambda>(isTracking, c).
               if \<not> toBool isTracking then Inr c
               else sendGoto_sig env ops sig j2000Coordinates c))
           else Inr c)
       else sendGoto_sig env ops sig j2000Coordinates c)"

definition checkUnpark_sig ::
  "'v host \<Rightarrow> 'd driver_ops \<Rightarrow> 'd exception_signal \<Rightarrow> 'v \<Rightarrow> ('d, 'v) client \<Rightarrow>
   error + ('d, 'v) client" where
  "checkUnpark_sig env ops sig j2000Coordinates c =
     bindE (sig_property ops sig P_PARKED c) (\<lambda>(isParked, c).
       if toBool isParked then
         bindE (sig_property ops sig P_CAN_UNPARK c) (\<lambda>(canUnpark, c).
           if toBool canUnpark then
             bindE (sig_dynamicCall ops sig M_UNPARK [] c) (\<lambda>c.
               checkTracking_sig env ops sig j2000Coordinates c)
           else Inr c)
       else checkTracking_sig env ops sig j2000Coordinates c)"

definition telescopeGoto_sig ::
  "'v host \<Rightarrow> 'd driver_ops \<Rightarrow> 'd exception_signal \<Rightarrow> 'v \<Rightarrow> ('d, 'v) client \<Rightarrow>
   error + ('d, 'v) client" where
  "telescopeGoto_sig env ops sig j2000Coordinates c =
     (if \<not> isInitialized c then Inr c
      else
        bindE (isConnected_sig ops sig c) (\<lambda>(connected, c).
          if \<not> connected then
            bindE (sig_setProperty ops sig P_CONNECTED (VBool True) c) (\<lambda>c.
            bindE (sig_property ops sig P_CONNECTED c) (\<lambda>(connectionAttemptSucceeded, c).
              if \<not> toBool connectionAttemptSucceeded then Inr c
              else checkUnpark_sig env ops sig j2000Coordinates c))
          else checkUnpark_sig env ops sig j2000Coordinates c))"

subsection \<open>Sessions and what one call asks of the driver\<close>

text \<open>The entries one call appended to the access log of \<open>c\<close>, given the client
  \<open>c'\<close> it returned.\<close>

definition callLog :: "('d, 'v) client \<Rightarrow> ('d, 'v) client \<Rightarrow> access list" where
  "callLog c c' = drop (length (accessLog c)) (accessLog c')"

text \<open>\<open>reported p b l\<close>: in \<open>l\<close> the driver answered a read of \<open>p\<close> with a value that
  converts to \<open>b\<close>.\<close>

fun answers :: "prop_name \<Rightarrow> bool \<Rightarrow> access \<Rightarrow> bool" where
  "answers p b (Read q v) = (q = p \<and> toBool v = b)"
| "answers p b (Write q v) = False"
| "answers p b (Invoke m as) = False"

definition reported :: "prop_name \<Rightarrow> bool \<Rightarrow> access list \<Rightarrow> bool" where
  "reported p b l = list_ex (answers p b) l"


fun isPositionRead :: "access \<Rightarrow> bool" where
  "isPositionRead (Read q v) = (q = P_RA \<or> q = P_DEC)"
| "isPositionRead (Write q v) = False"
| "isPositionRead (Invoke m as) = False"

text \<open>The calls made on a client during a session. A fault reaches the handler
  inside a driver call of an operation, through the signal, or between two operations,
  as \<open>DriverException\<close>.\<close>

datatype 'v operation =
    IsInitialized
  | IsConnected
  | PrepareCommunication
  | PerformCommunication int int int
  | TelescopeGoto 'v
  | DriverException int string string string

fun step ::
  "'v host \<Rightarrow> 'd driver_ops \<Rightarrow> 'd exception_signal \<Rightarrow> 'v operation \<Rightarrow> ('d, 'v) client \<Rightarrow>
   error + ('d, 'v) client" where
  "step env ops sig IsInitialized c = Inr c"
| "step env ops sig IsConnected c = bindE (isConnected_sig ops sig c) (\<lambda>(b, c). Inr c)"
| "step env ops sig PrepareCommunication c = Inr c"
| "step env ops sig (PerformCommunication now serverTime clientTime) c =
     performCommunication_sig env ops sig now serverTime clientTime c"
| "step env ops sig (TelescopeGoto v) c = telescopeGoto_sig env ops sig v c"
| "step env ops sig (DriverException code source desc help) c =
     Inr (handleDriverException code source desc help c)"

fun run ::
  "'v host \<Rightarrow> 'd driver_ops \<Rightarrow> 'd exception_signal \<Rightarrow> 'v operation list \<Rightarrow> ('d, 'v) client \<Rightarrow>
   error + ('d, 'v) client" where
  "run env ops sig [] c = Inr c"
| "run env ops sig (x # xs) c = bindE (step env ops sig x c) (run env ops sig xs)"

text \<open>\<open>pollTimes env ops nows c\<close>: \<^verbatim>\<open>performCommunication\<close> is called once for each
  element of \<open>nows\<close> (its three clock readings), and the result lists the first reading
  of every call that read the position from the driver.\<close>

fun pollTimes ::
  "'v host \<Rightarrow> 'd driver_ops \<Rightarrow> (int \<times> int \<times> int) list \<Rightarrow> ('d, 'v) client \<Rightarrow> int list" where
  "pollTimes env ops [] c = []"
| "pollTimes env ops ((now, serverTime, clientTime) # rest) c =
     (case performCommunication env ops now serverTime clientTime c of
        Inl e \<Rightarrow> []
      | Inr c' \<Rightarrow>
          (if list_ex isPositionRead (callLog c c') then [now] else []) @
          pollTimes env ops rest c')"

text \<open>\<open>spaced k ts\<close>: every element of \<open>ts\<close> is at least \<open>k\<close> after each element
  before it.\<close>

fun spaced :: "int \<Rightarrow> int list \<Rightarrow> bool" where
  "spaced k [] = True"
| "spaced k (t # ts) = (list_all (\<lambda>u. t + k \<le> u) ts \<and> spaced k ts)"



fun isStatusAccess :: "access \<Rightarrow> bool" where
  "isStatusAccess (Read q v) = (q = P_CONNECTED \<or> q = P_PARKED)"
| "isStatusAccess (Write q v) = (q = P_CONNECTED \<and> v = VBool True)"
| "isStatusAccess (Invoke m as) = False"

text \<open>The argument lists of the slew calls in a log, in order.\<close>

fun slewArguments :: "access list \<Rightarrow> real list list" where
  "slewArguments [] = []"
| "slewArguments (Invoke m as # l) =
     (if m = M_SLEW \<or> m = M_SLEW_ASYNCHRONOUSLY then [as] else []) @ slewArguments l"
| "slewArguments (Read q v # l) = slewArguments l"
| "slewArguments (Write q v # l) = slewArguments l"

subsection \<open>The shape of a call\<close>

text \<open>
  \<open>frame c l c'\<close>: the call went from \<open>c\<close> to \<open>c'\<close> keeping the driver bound, appended
  \<open>l\<close> to the access log and changed no other member. \<open>slewArgs\<close> and \<open>sampleOf\<close> name
  the two conversions of the file: the arguments \<^verbatim>\<open>telescopeGoto\<close> hands to the slew
  call, and the direction \<^verbatim>\<open>performCommunication\<close> stores for a raw reading.
\<close>

definition frame :: "('d, 'v) client \<Rightarrow> access list \<Rightarrow> ('d, 'v) client \<Rightarrow> bool" where
  "frame c l c' = (\<exists>d'. c' = c\<lparr>driver := Ax d', accessLog := accessLog c @ l\<rparr>)"

definition slewArgs :: "'v host \<Rightarrow> Equinox \<Rightarrow> 'v \<Rightarrow> real list" where
  "slewArgs env eq t =
     (let v = (if eq = EquinoxJNow then equinoxEquToJ2000 env t else t)
      in [fst (rectToSphe env v) * (12 / pi), snd (rectToSphe env v) * (180 / pi)])"

definition sampleOf :: "'v host \<Rightarrow> Equinox \<Rightarrow> QVariant \<Rightarrow> QVariant \<Rightarrow> 'v" where
  "sampleOf env eq ra dec =
     (let v = spheToRect env (toDouble ra * (pi / 12)) (toDouble dec * (pi / 180))
      in if eq = EquinoxJNow then equinoxEquToJ2000 env v else v)"

text \<open>
  What the stages of \<^verbatim>\<open>telescopeGoto\<close> and \<^verbatim>\<open>performCommunication\<close> can ask of the
  driver, one rule for each path through the source: the connection check, the slew
  call, the tracking check, the parked check, and the whole of each function.
\<close>

inductive connUp :: "access list \<Rightarrow> bool" where
  connAlready: "toBool v \<Longrightarrow> connUp [Read P_CONNECTED v]"
| connMade: "\<not> toBool v \<Longrightarrow> toBool v' \<Longrightarrow>
     connUp [Read P_CONNECTED v, Write P_CONNECTED (VBool True), Read P_CONNECTED v']"

inductive connRefused :: "access list \<Rightarrow> bool" where
  connRefusedI: "\<not> toBool v \<Longrightarrow> \<not> toBool v' \<Longrightarrow>
     connRefused [Read P_CONNECTED v, Write P_CONNECTED (VBool True), Read P_CONNECTED v']"

inductive sendTrace :: "real list \<Rightarrow> access list \<Rightarrow> bool" for as where
  sendAsync: "toBool va \<Longrightarrow>
     sendTrace as [Read P_CAN_SLEW_ASYNCHRONOUSLY va, Invoke M_SLEW_ASYNCHRONOUSLY as]"
| sendSync: "\<not> toBool va \<Longrightarrow> toBool vs \<Longrightarrow>
     sendTrace as [Read P_CAN_SLEW_ASYNCHRONOUSLY va, Read P_CAN_SLEW vs, Invoke M_SLEW as]"
| sendNone: "\<not> toBool va \<Longrightarrow> \<not> toBool vs \<Longrightarrow>
     sendTrace as [Read P_CAN_SLEW_ASYNCHRONOUSLY va, Read P_CAN_SLEW vs]"

inductive trackTrace :: "real list \<Rightarrow> access list \<Rightarrow> bool" for as where
  trackOn: "toBool vt \<Longrightarrow> sendTrace as l \<Longrightarrow> trackTrace as (Read P_TRACKING vt # l)"
| trackUnable: "\<not> toBool vt \<Longrightarrow> \<not> toBool vc \<Longrightarrow>
     trackTrace as [Read P_TRACKING vt, Read P_CAN_TRACK vc]"
| trackFailed: "\<not> toBool vt \<Longrightarrow> toBool vc \<Longrightarrow> \<not> toBool vt' \<Longrightarrow>
     trackTrace as [Read P_TRACKING vt, Read P_CAN_TRACK vc, Write P_TRACKING (VBool True),
                    Read P_TRACKING vt']"
| trackSet: "\<not> toBool vt \<Longrightarrow> toBool vc \<Longrightarrow> toBool vt' \<Longrightarrow> sendTrace as l \<Longrightarrow>
     trackTrace as (Read P_TRACKING vt # Read P_CAN_TRACK vc # Write P_TRACKING (VBool True) #
                    Read P_TRACKING vt' # l)"

inductive parkTrace :: "real list \<Rightarrow> access list \<Rightarrow> bool" for as where
  parkFree: "\<not> toBool vp \<Longrightarrow> trackTrace as l \<Longrightarrow> parkTrace as (Read P_PARKED vp # l)"
| parkStuck: "toBool vp \<Longrightarrow> \<not> toBool vu \<Longrightarrow>
     parkTrace as [Read P_PARKED vp, Read P_CAN_UNPARK vu]"
| parkUnpark: "toBool vp \<Longrightarrow> toBool vu \<Longrightarrow> trackTrace as l \<Longrightarrow>
     parkTrace as (Read P_PARKED vp # Read P_CAN_UNPARK vu # Invoke M_UNPARK [] # l)"

inductive gotoTrace :: "real list \<Rightarrow> access list \<Rightarrow> bool" for as where
  gotoRefused: "connRefused l \<Longrightarrow> gotoTrace as l"
| gotoConnected: "connUp p \<Longrightarrow> parkTrace as l \<Longrightarrow> gotoTrace as (p @ l)"

inductive pollOutcome ::
  "'v host \<Rightarrow> int \<Rightarrow> int \<Rightarrow> int \<Rightarrow> ('d, 'v) client \<Rightarrow> ('d, 'v) client \<Rightarrow> bool"
  for env now serverTime clientTime c where
  pollRefused: "connRefused l \<Longrightarrow> frame c l c' \<Longrightarrow>
     pollOutcome env now serverTime clientTime c c'"
| pollParked: "connUp p \<Longrightarrow> toBool vp \<Longrightarrow> frame c (p @ [Read P_PARKED vp]) c' \<Longrightarrow>
     pollOutcome env now serverTime clientTime c c'"
| pollEarly: "connUp p \<Longrightarrow> \<not> toBool vp \<Longrightarrow> now < timeToGetPosition c \<Longrightarrow>
     frame c (p @ [Read P_PARKED vp]) c' \<Longrightarrow>
     pollOutcome env now serverTime clientTime c c'"
| pollRead: "connUp p \<Longrightarrow> \<not> toBool vp \<Longrightarrow> \<not> now < timeToGetPosition c \<Longrightarrow>
     frame c (p @ [Read P_PARKED vp, Read P_RA ra, Read P_DEC dec]) c2 \<Longrightarrow>
     c' = c2\<lparr>timeToGetPosition := qint64_add now (POSITION_REFRESH_INTERVAL env),
             interpolatedPosition := interpolatedPosition c @
               [(sampleOf env (equinox c) ra dec, clientTime, serverTime)]\<rparr> \<Longrightarrow>
     pollOutcome env now serverTime clientTime c c'"

subsection \<open>A simulated mount and a host, for concrete runs\<close>

record sim =
  sim_connected :: bool
  sim_connectable :: bool
  sim_atPark :: bool
  sim_tracking :: bool
  sim_canSlew :: bool
  sim_canSlewAsync :: bool
  sim_canSetTracking :: bool
  sim_canUnpark :: bool
  sim_ra :: real
  sim_dec :: real

fun sim_property :: "prop_name \<Rightarrow> sim \<Rightarrow> QVariant \<times> sim" where
  "sim_property P_CONNECTED d = (VBool (sim_connected d), d)"
| "sim_property P_PARKED d = (VBool (sim_atPark d), d)"
| "sim_property P_TRACKING d = (VBool (sim_tracking d), d)"
| "sim_property P_CAN_SLEW d = (VBool (sim_canSlew d), d)"
| "sim_property P_CAN_SLEW_ASYNCHRONOUSLY d = (VBool (sim_canSlewAsync d), d)"
| "sim_property P_CAN_TRACK d = (VBool (sim_canSetTracking d), d)"
| "sim_property P_CAN_UNPARK d = (VBool (sim_canUnpark d), d)"
| "sim_property P_RA d = (VDouble (sim_ra d), d)"
| "sim_property P_DEC d = (VDouble (sim_dec d), d)"
| "sim_property P_EQUATORIAL_SYSTEM d = (VInvalid, d)"

fun sim_setProperty :: "prop_name \<Rightarrow> QVariant \<Rightarrow> sim \<Rightarrow> sim" where
  "sim_setProperty P_CONNECTED v d = d\<lparr>sim_connected := (toBool v \<and> sim_connectable d)\<rparr>"
| "sim_setProperty P_TRACKING v d =
     (if sim_canSetTracking d then d\<lparr>sim_tracking := toBool v\<rparr> else d)"
| "sim_setProperty p v d = d"

fun sim_dynamicCall :: "method_name \<Rightarrow> real list \<Rightarrow> sim \<Rightarrow> sim" where
  "sim_dynamicCall M_UNPARK as d = (if sim_canUnpark d then d\<lparr>sim_atPark := False\<rparr> else d)"
| "sim_dynamicCall m [r, de] d = d\<lparr>sim_ra := r, sim_dec := de\<rparr>"
| "sim_dynamicCall m as d = d"

definition sim_ops :: "sim driver_ops" where
  "sim_ops = \<lparr>property = sim_property, setProperty = sim_setProperty,
              dynamicCall = sim_dynamicCall\<rparr>"

text \<open>A mount that is connected, unparked, tracking and able to do everything, pointing at
  12 h, 45 degrees.\<close>

definition readyMount :: sim where
  "readyMount = \<lparr>sim_connected = True, sim_connectable = True, sim_atPark = False,
                 sim_tracking = True, sim_canSlew = True, sim_canSlewAsync = True,
                 sim_canSetTracking = True, sim_canUnpark = True, sim_ra = 12, sim_dec = 45\<rparr>"

text \<open>A host whose directions are pairs of angles and whose change of frame shifts the
  first angle by one radian, back and forth; the interval is five seconds.\<close>

definition toyHost :: "(real \<times> real) host" where
  "toyHost = \<lparr>POSITION_REFRESH_INTERVAL = 5000000,
              spheToRect = (\<lambda>lng lat. (lng, lat)),
              rectToSphe = (\<lambda>v. v),
              equinoxEquToJ2000 = (\<lambda>v. (fst v - 1, snd v)),
              j2000ToEquinoxEqu = (\<lambda>v. (fst v + 1, snd v))\<rparr>"

text \<open>Drivers that raise the signal during the read of \<^verbatim>\<open>RightAscension\<close>, and
  during \<^verbatim>\<open>Unpark()\<close>.\<close>

definition raiseOnRA :: "sim exception_signal" where
  "raiseOnRA = \<lparr>onProperty = (\<lambda>p d. if p = P_RA then Some (5, ''src'', ''boom'', ''help'')
                                      else None),
                onSetProperty = (\<lambda>p v d. None), onDynamicCall = (\<lambda>m as d. None)\<rparr>"

definition raiseOnUnpark :: "sim exception_signal" where
  "raiseOnUnpark = \<lparr>onProperty = (\<lambda>p d. None), onSetProperty = (\<lambda>p v d. None),
                    onDynamicCall = (\<lambda>m as d. if m = M_UNPARK
                                               then Some (5, ''src'', ''boom'', ''help'')
                                               else None)\<rparr>"

definition client0 :: "Equinox \<Rightarrow> sim handle \<Rightarrow> (sim, real \<times> real) client" where
  "client0 eq h = \<lparr>name = ''T'', equinox = eq, driverId = ''Sim.Telescope'', driver = h,
                   timeToGetPosition = 100, interpolatedPosition = [],
                   accessLog = [], emitted = []\<rparr>"

section \<open>Properties\<close>

subsection \<open>Calls on a bound driver\<close>

lemma frame_Ax: "frame c l c' \<Longrightarrow> \<exists>d. driver c' = Ax d"
  by (auto simp: frame_def)

lemma frame_trans: "frame c l c' \<Longrightarrow> frame c' l' c'' \<Longrightarrow> frame c (l @ l') c''"
  by (auto simp: frame_def)

lemma frame_equinox: "frame c l c' \<Longrightarrow> equinox c' = equinox c"
  by (auto simp: frame_def)

lemma frame_callLog: "frame c l c' \<Longrightarrow> callLog c c' = l"
  by (auto simp: frame_def callLog_def)

lemma property_frame:
  "driver c = Ax d \<Longrightarrow> \<exists>v c'. drv_property ops p c = Inr (v, c') \<and> frame c [Read p v] c'"
  by (auto simp: drv_property_def frame_def split: prod.splits)

lemma setProperty_frame:
  "driver c = Ax d \<Longrightarrow> \<exists>c'. drv_setProperty ops p v c = Inr c' \<and> frame c [Write p v] c'"
  by (auto simp: drv_setProperty_def frame_def)

lemma dynamicCall_frame:
  "driver c = Ax d \<Longrightarrow> \<exists>c'. drv_dynamicCall ops m as c = Inr c' \<and> frame c [Invoke m as] c'"
  by (auto simp: drv_dynamicCall_def frame_def)

text \<open>The connection check that opens both \<^verbatim>\<open>performCommunication\<close> and
  \<^verbatim>\<open>telescopeGoto\<close>, for any continuation \<open>K\<close>.\<close>

lemma ensure_connected:
  assumes "driver c = Ax d"
  shows "\<exists>l c1. frame c l c1 \<and>
           (connRefused l \<and>
              (\<forall>K. bindE (isConnected ops c) (\<lambda>(connected, c).
                 if \<not> connected then
                   bindE (drv_setProperty ops P_CONNECTED (VBool True) c) (\<lambda>c.
                   bindE (drv_property ops P_CONNECTED c) (\<lambda>(ok, c).
                     if \<not> toBool ok then Inr c else K c))
                 else K c) = Inr c1)
            \<or> connUp l \<and>
              (\<forall>K. bindE (isConnected ops c) (\<lambda>(connected, c).
                 if \<not> connected then
                   bindE (drv_setProperty ops P_CONNECTED (VBool True) c) (\<lambda>c.
                   bindE (drv_property ops P_CONNECTED c) (\<lambda>(ok, c).
                     if \<not> toBool ok then Inr c else K c))
                 else K c) = (K c1 :: error + ('a, 'b) client)))"
proof -
  from property_frame [OF assms, of ops P_CONNECTED]
  obtain v c1 where 1: "drv_property ops P_CONNECTED c = Inr (v, c1)"
    and f1: "frame c [Read P_CONNECTED v] c1" by blast
  from assms 1 have ic: "isConnected ops c = Inr (toBool v, c1)"
    by (simp add: isConnected_def isInitialized_def bindE_def)
  from frame_Ax [OF f1] obtain d1 where d1: "driver c1 = Ax d1" by blast
  show ?thesis
  proof (cases "toBool v")
    case True
    with ic f1 show ?thesis
      by (intro exI [of _ "[Read P_CONNECTED v]"] exI [of _ c1])
         (simp add: bindE_def connAlready)
  next
    case False
    from setProperty_frame [OF d1, of ops P_CONNECTED "VBool True"]
    obtain c2 where 2: "drv_setProperty ops P_CONNECTED (VBool True) c1 = Inr c2"
      and f2: "frame c1 [Write P_CONNECTED (VBool True)] c2" by blast
    from frame_Ax [OF f2] obtain d2 where d2: "driver c2 = Ax d2" by blast
    from property_frame [OF d2, of ops P_CONNECTED]
    obtain v' c3 where 3: "drv_property ops P_CONNECTED c2 = Inr (v', c3)"
      and f3: "frame c2 [Read P_CONNECTED v'] c3" by blast
    from frame_trans [OF frame_trans [OF f1 f2] f3]
    have f: "frame c [Read P_CONNECTED v, Write P_CONNECTED (VBool True), Read P_CONNECTED v'] c3"
      by simp
    show ?thesis
    proof (cases "toBool v'")
      case True
      with False ic 2 3 f show ?thesis
        by (intro exI [of _ "[Read P_CONNECTED v, Write P_CONNECTED (VBool True),
              Read P_CONNECTED v']"] exI [of _ c3])
           (simp add: bindE_def connMade)
    next
      case no: False
      with False ic 2 3 f show ?thesis
        by (intro exI [of _ "[Read P_CONNECTED v, Write P_CONNECTED (VBool True),
              Read P_CONNECTED v']"] exI [of _ c3])
           (simp add: bindE_def connRefusedI)
    qed
  qed
qed

lemma sendGoto_trace:
  assumes "driver c = Ax d"
  shows "\<exists>c' l. sendGoto env ops t c = Inr c' \<and> frame c l c' \<and>
           sendTrace (slewArgs env (equinox c) t) l"
  using assms
  by (auto simp: sendGoto_def slewArgs_def drv_property_def drv_dynamicCall_def bindE_def
        frame_def Let_def split: prod.splits intro: sendTrace.intros)

lemma checkTracking_trace:
  assumes "driver c = Ax d"
  shows "\<exists>c' l. checkTracking env ops t c = Inr c' \<and> frame c l c' \<and>
           trackTrace (slewArgs env (equinox c) t) l"
proof -
  let ?as = "slewArgs env (equinox c) t"
  from property_frame [OF assms, of ops P_TRACKING]
  obtain vt c1 where 1: "drv_property ops P_TRACKING c = Inr (vt, c1)"
    and f1: "frame c [Read P_TRACKING vt] c1" by blast
  from frame_Ax [OF f1] obtain d1 where d1: "driver c1 = Ax d1" by blast
  show ?thesis
  proof (cases "toBool vt")
    case True
    from sendGoto_trace [OF d1, of env ops t] frame_equinox [OF f1]
    obtain c2 l where 2: "sendGoto env ops t c1 = Inr c2" and f2: "frame c1 l c2"
      and t2: "sendTrace ?as l" by auto
    from frame_trans [OF f1 f2] have "frame c (Read P_TRACKING vt # l) c2" by simp
    with True 1 2 t2 show ?thesis
      by (auto simp: checkTracking_def bindE_def intro: trackOn)
  next
    case False
    from property_frame [OF d1, of ops P_CAN_TRACK]
    obtain vc c2 where 2: "drv_property ops P_CAN_TRACK c1 = Inr (vc, c2)"
      and f2: "frame c1 [Read P_CAN_TRACK vc] c2" by blast
    from frame_Ax [OF f2] obtain d2 where d2: "driver c2 = Ax d2" by blast
    from frame_trans [OF f1 f2] have f12: "frame c [Read P_TRACKING vt, Read P_CAN_TRACK vc] c2"
      by simp
    show ?thesis
    proof (cases "toBool vc")
      case False
      with \<open>\<not> toBool vt\<close> 1 2 f12 show ?thesis
        by (auto simp: checkTracking_def bindE_def intro: trackUnable)
    next
      case True
      from setProperty_frame [OF d2, of ops P_TRACKING "VBool True"]
      obtain c3 where 3: "drv_setProperty ops P_TRACKING (VBool True) c2 = Inr c3"
        and f3: "frame c2 [Write P_TRACKING (VBool True)] c3" by blast
      from frame_Ax [OF f3] obtain d3 where d3: "driver c3 = Ax d3" by blast
      from property_frame [OF d3, of ops P_TRACKING]
      obtain vt' c4 where 4: "drv_property ops P_TRACKING c3 = Inr (vt', c4)"
        and f4: "frame c3 [Read P_TRACKING vt'] c4" by blast
      from frame_Ax [OF f4] obtain d4 where d4: "driver c4 = Ax d4" by blast
      from frame_trans [OF frame_trans [OF f12 f3] f4]
      have f14: "frame c [Read P_TRACKING vt, Read P_CAN_TRACK vc, Write P_TRACKING (VBool True),
                    Read P_TRACKING vt'] c4" by simp
      show ?thesis
      proof (cases "toBool vt'")
        case False
        with \<open>\<not> toBool vt\<close> \<open>toBool vc\<close> 1 2 3 4 f14 show ?thesis
          by (auto simp: checkTracking_def bindE_def intro: trackFailed)
      next
        case True
        from sendGoto_trace [OF d4, of env ops t] frame_equinox [OF f14]
        obtain c5 l where 5: "sendGoto env ops t c4 = Inr c5" and f5: "frame c4 l c5"
          and t5: "sendTrace ?as l" by auto
        from frame_trans [OF f14 f5]
        have "frame c (Read P_TRACKING vt # Read P_CAN_TRACK vc # Write P_TRACKING (VBool True) #
                    Read P_TRACKING vt' # l) c5" by simp
        with True \<open>\<not> toBool vt\<close> \<open>toBool vc\<close> 1 2 3 4 5 t5 show ?thesis
          by (auto simp: checkTracking_def bindE_def intro: trackSet)
      qed
    qed
  qed
qed

lemma checkUnpark_trace:
  assumes "driver c = Ax d"
  shows "\<exists>c' l. checkUnpark env ops t c = Inr c' \<and> frame c l c' \<and>
           parkTrace (slewArgs env (equinox c) t) l"
proof -
  let ?as = "slewArgs env (equinox c) t"
  from property_frame [OF assms, of ops P_PARKED]
  obtain vp c1 where 1: "drv_property ops P_PARKED c = Inr (vp, c1)"
    and f1: "frame c [Read P_PARKED vp] c1" by blast
  from frame_Ax [OF f1] obtain d1 where d1: "driver c1 = Ax d1" by blast
  show ?thesis
  proof (cases "toBool vp")
    case False
    from checkTracking_trace [OF d1, of env ops t] frame_equinox [OF f1]
    obtain c2 l where 2: "checkTracking env ops t c1 = Inr c2" and f2: "frame c1 l c2"
      and t2: "trackTrace ?as l" by auto
    from frame_trans [OF f1 f2] have "frame c (Read P_PARKED vp # l) c2" by simp
    with False 1 2 t2 show ?thesis
      by (auto simp: checkUnpark_def bindE_def intro: parkFree)
  next
    case True
    from property_frame [OF d1, of ops P_CAN_UNPARK]
    obtain vu c2 where 2: "drv_property ops P_CAN_UNPARK c1 = Inr (vu, c2)"
      and f2: "frame c1 [Read P_CAN_UNPARK vu] c2" by blast
    from frame_Ax [OF f2] obtain d2 where d2: "driver c2 = Ax d2" by blast
    from frame_trans [OF f1 f2] have f12: "frame c [Read P_PARKED vp, Read P_CAN_UNPARK vu] c2"
      by simp
    show ?thesis
    proof (cases "toBool vu")
      case False
      with True 1 2 f12 show ?thesis
        by (auto simp: checkUnpark_def bindE_def intro: parkStuck)
    next
      case can: True
      from dynamicCall_frame [OF d2, of ops M_UNPARK "[]"]
      obtain c3 where 3: "drv_dynamicCall ops M_UNPARK [] c2 = Inr c3"
        and f3: "frame c2 [Invoke M_UNPARK []] c3" by blast
      from frame_Ax [OF f3] obtain d3 where d3: "driver c3 = Ax d3" by blast
      from frame_trans [OF f12 f3]
      have f13: "frame c [Read P_PARKED vp, Read P_CAN_UNPARK vu, Invoke M_UNPARK []] c3"
        by simp
      from checkTracking_trace [OF d3, of env ops t] frame_equinox [OF f13]
      obtain c4 l where 4: "checkTracking env ops t c3 = Inr c4" and f4: "frame c3 l c4"
        and t4: "trackTrace ?as l" by auto
      from frame_trans [OF f13 f4]
      have "frame c (Read P_PARKED vp # Read P_CAN_UNPARK vu # Invoke M_UNPARK [] # l) c4"
        by simp
      with True can 1 2 3 4 t4 show ?thesis
        by (auto simp: checkUnpark_def bindE_def intro: parkUnpark)
    qed
  qed
qed

lemma telescopeGoto_trace:
  assumes "driver c = Ax d"
  shows "\<exists>c' l. telescopeGoto env ops t c = Inr c' \<and> frame c l c' \<and>
           gotoTrace (slewArgs env (equinox c) t) l"
proof -
  let ?as = "slewArgs env (equinox c) t"
  from assms have unf: "telescopeGoto env ops t c =
      bindE (isConnected ops c) (\<lambda>(connected, c).
          if \<not> connected then
            bindE (drv_setProperty ops P_CONNECTED (VBool True) c) (\<lambda>c.
            bindE (drv_property ops P_CONNECTED c) (\<lambda>(connectionAttemptSucceeded, c).
              if \<not> toBool connectionAttemptSucceeded then Inr c
              else checkUnpark env ops t c))
          else checkUnpark env ops t c)"
    by (simp add: telescopeGoto_def isInitialized_def)
  from ensure_connected [OF assms, of ops]
  obtain p c1 where f1: "frame c p c1" and
    alt: "connRefused p \<and> telescopeGoto env ops t c = Inr c1 \<or>
          connUp p \<and> telescopeGoto env ops t c = checkUnpark env ops t c1"
    unfolding unf by blast
  from alt show ?thesis
  proof
    assume "connRefused p \<and> telescopeGoto env ops t c = Inr c1"
    with f1 show ?thesis by (auto intro: gotoRefused)
  next
    assume up: "connUp p \<and> telescopeGoto env ops t c = checkUnpark env ops t c1"
    from frame_Ax [OF f1] obtain d1 where d1: "driver c1 = Ax d1" by blast
    from checkUnpark_trace [OF d1, of env ops t] frame_equinox [OF f1]
    obtain c2 l where 2: "checkUnpark env ops t c1 = Inr c2" and f2: "frame c1 l c2"
      and t2: "parkTrace ?as l" by auto
    from frame_trans [OF f1 f2] up 2 t2 show ?thesis
      by (auto intro: gotoConnected)
  qed
qed

lemma callLog_self: "callLog c c = []"
  by (simp add: callLog_def)

lemma telescopeGoto_cases:
  "\<exists>c'. telescopeGoto env ops t c = Inr c' \<and>
     (callLog c c' = [] \<or> gotoTrace (slewArgs env (equinox c) t) (callLog c c'))"
proof (cases "driver c")
  case (Ax d)
  from telescopeGoto_trace [OF Ax, of env ops t] show ?thesis
    by (auto simp: frame_callLog)
qed (simp_all add: telescopeGoto_def isInitialized_def callLog_def)

lemma frame_fields:
  "frame c l c' \<Longrightarrow> timeToGetPosition c' = timeToGetPosition c \<and>
     interpolatedPosition c' = interpolatedPosition c \<and> equinox c' = equinox c"
  by (auto simp: frame_def)

lemma getPosition_cases:
  assumes "driver c = Ax d"
  shows "now < timeToGetPosition c \<and>
           getPosition env ops now serverTime clientTime c = Inr c
         \<or> \<not> now < timeToGetPosition c \<and>
           (\<exists>ra dec c2. frame c [Read P_RA ra, Read P_DEC dec] c2 \<and>
              getPosition env ops now serverTime clientTime c =
                Inr (c2\<lparr>timeToGetPosition := qint64_add now (POSITION_REFRESH_INTERVAL env),
                        interpolatedPosition := interpolatedPosition c @
                          [(sampleOf env (equinox c) ra dec, clientTime, serverTime)]\<rparr>))"
proof (cases "now < timeToGetPosition c")
  case True
  then show ?thesis by (simp add: getPosition_def)
next
  case False
  obtain ra d1 where 1: "property ops P_RA d = (ra, d1)" by (cases "property ops P_RA d")
  obtain dec d2 where 2: "property ops P_DEC d1 = (dec, d2)" by (cases "property ops P_DEC d1")
  let ?c2 = "c\<lparr>driver := Ax d2, accessLog := accessLog c @ [Read P_RA ra, Read P_DEC dec]\<rparr>"
  have "frame c [Read P_RA ra, Read P_DEC dec] ?c2"
    by (auto simp: frame_def)
  moreover from assms False 1 2
  have "getPosition env ops now serverTime clientTime c =
          Inr (?c2\<lparr>timeToGetPosition := qint64_add now (POSITION_REFRESH_INTERVAL env),
                  interpolatedPosition := interpolatedPosition c @
                    [(sampleOf env (equinox c) ra dec, clientTime, serverTime)]\<rparr>)"
    by (simp add: getPosition_def drv_property_def bindE_def sampleOf_def Let_def)
  ultimately show ?thesis using False by blast
qed

lemma checkParked_cases:
  assumes "driver c = Ax d"
  shows "\<exists>vp c1. frame c [Read P_PARKED vp] c1 \<and>
     ((toBool vp \<or> now < timeToGetPosition c) \<and>
        checkParked env ops now serverTime clientTime c = Inr c1
      \<or> \<not> toBool vp \<and> \<not> now < timeToGetPosition c \<and>
        (\<exists>ra dec c2. frame c [Read P_PARKED vp, Read P_RA ra, Read P_DEC dec] c2 \<and>
           checkParked env ops now serverTime clientTime c =
             Inr (c2\<lparr>timeToGetPosition := qint64_add now (POSITION_REFRESH_INTERVAL env),
                     interpolatedPosition := interpolatedPosition c @
                       [(sampleOf env (equinox c) ra dec, clientTime, serverTime)]\<rparr>)))"
proof -
  from property_frame [OF assms, of ops P_PARKED]
  obtain vp c1 where 1: "drv_property ops P_PARKED c = Inr (vp, c1)"
    and f1: "frame c [Read P_PARKED vp] c1" by blast
  from frame_Ax [OF f1] obtain d1 where d1: "driver c1 = Ax d1" by blast
  note same = frame_fields [OF f1]
  have unf: "checkParked env ops now serverTime clientTime c =
      (if toBool vp then Inr c1 else getPosition env ops now serverTime clientTime c1)"
    by (simp add: checkParked_def 1 bindE_def)
  show ?thesis
  proof (cases "toBool vp")
    case True
    with unf f1 show ?thesis by auto
  next
    case False
    from getPosition_cases [OF d1, of now env ops serverTime clientTime] same
    have "now < timeToGetPosition c \<and>
           getPosition env ops now serverTime clientTime c1 = Inr c1
         \<or> \<not> now < timeToGetPosition c \<and>
           (\<exists>ra dec c2. frame c1 [Read P_RA ra, Read P_DEC dec] c2 \<and>
              getPosition env ops now serverTime clientTime c1 =
                Inr (c2\<lparr>timeToGetPosition := qint64_add now (POSITION_REFRESH_INTERVAL env),
                        interpolatedPosition := interpolatedPosition c @
                          [(sampleOf env (equinox c) ra dec, clientTime, serverTime)]\<rparr>))"
      by simp
    then show ?thesis
    proof
      assume "now < timeToGetPosition c \<and>
           getPosition env ops now serverTime clientTime c1 = Inr c1"
      with unf False f1 show ?thesis by auto
    next
      assume "\<not> now < timeToGetPosition c \<and>
           (\<exists>ra dec c2. frame c1 [Read P_RA ra, Read P_DEC dec] c2 \<and>
              getPosition env ops now serverTime clientTime c1 =
                Inr (c2\<lparr>timeToGetPosition := qint64_add now (POSITION_REFRESH_INTERVAL env),
                        interpolatedPosition := interpolatedPosition c @
                          [(sampleOf env (equinox c) ra dec, clientTime, serverTime)]\<rparr>))"
      then obtain ra dec c2 where due: "\<not> now < timeToGetPosition c"
        and f2: "frame c1 [Read P_RA ra, Read P_DEC dec] c2"
        and g: "getPosition env ops now serverTime clientTime c1 =
                Inr (c2\<lparr>timeToGetPosition := qint64_add now (POSITION_REFRESH_INTERVAL env),
                        interpolatedPosition := interpolatedPosition c @
                          [(sampleOf env (equinox c) ra dec, clientTime, serverTime)]\<rparr>)"
        by blast
      from frame_trans [OF f1 f2]
      have f: "frame c [Read P_PARKED vp, Read P_RA ra, Read P_DEC dec] c2" by simp
      from unf False g have "checkParked env ops now serverTime clientTime c =
                Inr (c2\<lparr>timeToGetPosition := qint64_add now (POSITION_REFRESH_INTERVAL env),
                        interpolatedPosition := interpolatedPosition c @
                          [(sampleOf env (equinox c) ra dec, clientTime, serverTime)]\<rparr>)"
        by simp
      with False due f f1 show ?thesis by blast
    qed
  qed
qed

lemma performCommunication_outcome:
  assumes "driver c = Ax d"
  shows "\<exists>c'. performCommunication env ops now serverTime clientTime c = Inr c' \<and>
           pollOutcome env now serverTime clientTime c c'"
proof -
  let ?K = "checkParked env ops now serverTime clientTime"
  from assms have unf: "performCommunication env ops now serverTime clientTime c =
      bindE (isConnected ops c) (\<lambda>(connected, c).
          if \<not> connected then
            bindE (drv_setProperty ops P_CONNECTED (VBool True) c) (\<lambda>c.
            bindE (drv_property ops P_CONNECTED c) (\<lambda>(connectionAttemptSucceeded, c).
              if \<not> toBool connectionAttemptSucceeded then Inr c
              else ?K c))
          else ?K c)"
    by (simp add: performCommunication_def isInitialized_def)
  from ensure_connected [OF assms, of ops]
  obtain p c1 where f1: "frame c p c1" and
    alt: "connRefused p \<and> performCommunication env ops now serverTime clientTime c = Inr c1 \<or>
          connUp p \<and> performCommunication env ops now serverTime clientTime c = ?K c1"
    unfolding unf by blast
  from alt show ?thesis
  proof
    assume "connRefused p \<and> performCommunication env ops now serverTime clientTime c = Inr c1"
    with f1 show ?thesis by (auto intro: pollRefused)
  next
    assume up: "connUp p \<and> performCommunication env ops now serverTime clientTime c = ?K c1"
    from frame_Ax [OF f1] obtain d1 where d1: "driver c1 = Ax d1" by blast
    note same = frame_fields [OF f1]
    from checkParked_cases [OF d1, of now env ops serverTime clientTime]
    obtain vp c2 where f2: "frame c1 [Read P_PARKED vp] c2" and
      alt2: "(toBool vp \<or> now < timeToGetPosition c1) \<and> ?K c1 = Inr c2
        \<or> \<not> toBool vp \<and> \<not> now < timeToGetPosition c1 \<and>
        (\<exists>ra dec c3. frame c1 [Read P_PARKED vp, Read P_RA ra, Read P_DEC dec] c3 \<and>
           ?K c1 =
             Inr (c3\<lparr>timeToGetPosition := qint64_add now (POSITION_REFRESH_INTERVAL env),
                     interpolatedPosition := interpolatedPosition c1 @
                       [(sampleOf env (equinox c1) ra dec, clientTime, serverTime)]\<rparr>))"
      by blast
    from alt2 show ?thesis
    proof
      assume a: "(toBool vp \<or> now < timeToGetPosition c1) \<and> ?K c1 = Inr c2"
      from frame_trans [OF f1 f2] have f: "frame c (p @ [Read P_PARKED vp]) c2" .
      show ?thesis
      proof (cases "toBool vp")
        case True
        with up a f show ?thesis by (auto intro: pollParked)
      next
        case False
        with up a f same show ?thesis by (auto intro: pollEarly)
      qed
    next
      assume "\<not> toBool vp \<and> \<not> now < timeToGetPosition c1 \<and>
        (\<exists>ra dec c3. frame c1 [Read P_PARKED vp, Read P_RA ra, Read P_DEC dec] c3 \<and>
           ?K c1 =
             Inr (c3\<lparr>timeToGetPosition := qint64_add now (POSITION_REFRESH_INTERVAL env),
                     interpolatedPosition := interpolatedPosition c1 @
                       [(sampleOf env (equinox c1) ra dec, clientTime, serverTime)]\<rparr>))"
      then obtain ra dec c3 where np: "\<not> toBool vp" and due: "\<not> now < timeToGetPosition c1"
        and f3: "frame c1 [Read P_PARKED vp, Read P_RA ra, Read P_DEC dec] c3"
        and 3: "?K c1 =
             Inr (c3\<lparr>timeToGetPosition := qint64_add now (POSITION_REFRESH_INTERVAL env),
                     interpolatedPosition := interpolatedPosition c1 @
                       [(sampleOf env (equinox c1) ra dec, clientTime, serverTime)]\<rparr>)"
        by blast
      from frame_trans [OF f1 f3]
      have f: "frame c (p @ [Read P_PARKED vp, Read P_RA ra, Read P_DEC dec]) c3" .
      from up np due f 3 same show ?thesis
        by (auto intro!: pollRead [where p = p and vp = vp and ra = ra and dec = dec and ?c2.0 = c3])
    qed
  qed
qed

lemma connUp_no_position: "connUp p \<Longrightarrow> \<not> list_ex isPositionRead p \<and> list_all isStatusAccess p"
  by (auto elim!: connUp.cases)

lemma connUp_not_parked: "connUp p \<Longrightarrow> \<not> reported P_PARKED b p"
  by (auto elim!: connUp.cases simp: reported_def)

lemma connRefused_status:
  "connRefused p \<Longrightarrow> \<not> list_ex isPositionRead p \<and> list_all isStatusAccess p \<and>
     \<not> reported P_PARKED b p"
  by (auto elim!: connRefused.cases simp: reported_def)

lemma frame_callLog_update:
  "frame c l c2 \<Longrightarrow>
   callLog c (c2\<lparr>timeToGetPosition := x, interpolatedPosition := y\<rparr>) = l"
  by (auto simp: frame_def callLog_def)

lemma performCommunication_cases:
  "\<exists>c'. performCommunication env ops now serverTime clientTime c = Inr c' \<and>
     (c' = c \<or> pollOutcome env now serverTime clientTime c c')"
proof (cases "driver c")
  case (Ax d)
  from performCommunication_outcome [OF Ax, of env ops now serverTime clientTime]
  show ?thesis by blast
qed (simp_all add: performCommunication_def isInitialized_def callLog_def)

lemma poll_step:
  "\<exists>c'. performCommunication env ops now serverTime clientTime c = Inr c' \<and>
     (if list_ex isPositionRead (callLog c c')
      then timeToGetPosition c \<le> now \<and>
           timeToGetPosition c' = qint64_add now (POSITION_REFRESH_INTERVAL env)
      else timeToGetPosition c' = timeToGetPosition c)"
proof -
  from performCommunication_cases [of env ops now serverTime clientTime c]
  obtain c' where r: "performCommunication env ops now serverTime clientTime c = Inr c'"
    and o: "c' = c \<or> pollOutcome env now serverTime clientTime c c'"
    by blast
  from o have "if list_ex isPositionRead (callLog c c')
      then timeToGetPosition c \<le> now \<and>
           timeToGetPosition c' = qint64_add now (POSITION_REFRESH_INTERVAL env)
      else timeToGetPosition c' = timeToGetPosition c"
  proof
    assume "c' = c"
    then show ?thesis by (simp add: callLog_self reported_def)
  next
    assume "pollOutcome env now serverTime clientTime c c'"
    then show ?thesis
      by (cases rule: pollOutcome.cases)
         (auto simp: frame_callLog frame_callLog_update frame_fields connUp_no_position
            connRefused_status)
  qed
  with r show ?thesis by blast
qed

lemma qint64_add_exact:
  "- (2 ^ 63) \<le> a + b \<Longrightarrow> a + b < 2 ^ 63 \<Longrightarrow> qint64_add a b = a + b"
  by (simp add: qint64_add_def)

lemma pollTimes_bounds:
  assumes "0 \<le> POSITION_REFRESH_INTERVAL env"
    and "list_all (\<lambda>(now, serverTime, clientTime).
           - (2 ^ 63) \<le> now \<and> now + POSITION_REFRESH_INTERVAL env < 2 ^ 63) calls"
  shows "list_all (\<lambda>u. timeToGetPosition c \<le> u) (pollTimes env ops calls c) \<and>
         spaced (POSITION_REFRESH_INTERVAL env) (pollTimes env ops calls c)"
  using assms(2)
proof (induction calls arbitrary: c)
  case Nil
  then show ?case by simp
next
  case (Cons call calls)
  obtain now serverTime clientTime where call: "call = (now, serverTime, clientTime)"
    by (cases call) auto
  from Cons.prems call have rng: "- (2 ^ 63) \<le> now"
    "now + POSITION_REFRESH_INTERVAL env < 2 ^ 63"
    and rest: "list_all (\<lambda>(now, serverTime, clientTime).
           - (2 ^ 63) \<le> now \<and> now + POSITION_REFRESH_INTERVAL env < 2 ^ 63) calls"
    by auto
  from rng assms(1) have exact:
    "qint64_add now (POSITION_REFRESH_INTERVAL env) = now + POSITION_REFRESH_INTERVAL env"
    by (intro qint64_add_exact) auto
  from poll_step [of env ops now serverTime clientTime c]
  obtain c' where r: "performCommunication env ops now serverTime clientTime c = Inr c'"
    and s: "if list_ex isPositionRead (callLog c c')
      then timeToGetPosition c \<le> now \<and>
           timeToGetPosition c' = qint64_add now (POSITION_REFRESH_INTERVAL env)
      else timeToGetPosition c' = timeToGetPosition c" by blast
  note IH = Cons.IH [OF rest, of c']
  show ?case
  proof (cases "list_ex isPositionRead (callLog c c')")
    case True
    with s exact have le: "timeToGetPosition c \<le> now"
      and nxt: "timeToGetPosition c' = now + POSITION_REFRESH_INTERVAL env" by auto
    from IH nxt have later: "list_all (\<lambda>u. now + POSITION_REFRESH_INTERVAL env \<le> u)
        (pollTimes env ops calls c')" by simp
    have "list_all (\<lambda>u. timeToGetPosition c \<le> u) (pollTimes env ops calls c')"
      using later le assms(1) by (auto simp: list_all_iff)
    with True call r le later IH show ?thesis by simp
  next
    case False
    with s have "timeToGetPosition c' = timeToGetPosition c" by simp
    with False call r IH show ?thesis by simp
  qed
qed

lemma slewArguments_append:
  "slewArguments (p @ l) = slewArguments p @ slewArguments l"
proof (induction p)
  case Nil
  then show ?case by simp
next
  case (Cons a p)
  then show ?case by (cases a) simp_all
qed

lemma gotoTrace_slews:
  "gotoTrace as l \<Longrightarrow> list_all (\<lambda>x. x = as) (slewArguments l)"
  by (auto elim!: gotoTrace.cases connUp.cases connRefused.cases parkTrace.cases
        trackTrace.cases sendTrace.cases simp: slewArguments_append)




subsection \<open>Calls after the driver is gone\<close>

lemma step_null:
  "driver c = NullPtr \<Longrightarrow>
   \<exists>c'. step env ops sig x c = Inr c' \<and> driver c' = NullPtr \<and> accessLog c' = accessLog c"
  by (cases x)
     (simp_all add: isConnected_sig_def isInitialized_def performCommunication_sig_def
        telescopeGoto_sig_def handleDriverException_def deleteDriver_def bindE_def)

lemma run_null:
  "driver c = NullPtr \<Longrightarrow>
   \<exists>c'. run env ops sig xs c = Inr c' \<and> driver c' = NullPtr \<and> accessLog c' = accessLog c"
proof (induction xs arbitrary: c)
  case Nil
  then show ?case by simp
next
  case (Cons x xs)
  from step_null [OF Cons.prems, of env ops sig x]
  obtain c1 where s: "step env ops sig x c = Inr c1" "driver c1 = NullPtr"
    "accessLog c1 = accessLog c" by blast
  from Cons.IH [OF s(2)] s show ?case by (simp add: bindE_def)
qed

lemma fault_null: "driver (handleDriverException code source desc hlp c) = NullPtr"
  by (simp add: handleDriverException_def deleteDriver_def Let_def split: handle.splits)

lemma fault_log: "accessLog (handleDriverException code source desc hlp c) = accessLog c"
  by (simp add: handleDriverException_def deleteDriver_def Let_def split: handle.splits)

text \<open>Calls that begin after the handler has run, between calls or inside a driver
  call, find the pointer null: they return, leave the client uninitialized and make
  no driver call.\<close>

lemma calls_after_fault_inert:
  "\<exists>c'. run env ops sig xs (handleDriverException code source desc hlp c) = Inr c' \<and>
        \<not> isInitialized c' \<and> \<not> prepareCommunication c' \<and> accessLog c' = accessLog c"
proof -
  from run_null [OF fault_null]
  obtain c' where
    "run env ops sig xs (handleDriverException code source desc hlp c) = Inr c'"
    "driver c' = NullPtr"
    "accessLog c' = accessLog (handleDriverException code source desc hlp c)"
    by blast
  then show ?thesis
    by (auto simp: fault_log isInitialized_def prepareCommunication_def)
qed




text \<open>On a driver that never raises the signal the operations are those of the
  sections above.\<close>

lemma bindE_Inr_pair: "bindE m (\<lambda>(v, c). Inr (v, c)) = m"
  by (cases m) (auto simp: bindE_def)

lemma bindE_Inr: "bindE m (\<lambda>c. Inr c) = m"
  by (cases m) (auto simp: bindE_def)

lemma sig_property_silent: "sig_property ops silent p c = drv_property ops p c"
  by (simp add: sig_property_def silent_def bindE_Inr_pair bindE_Inr split: handle.splits)

lemma sig_setProperty_silent: "sig_setProperty ops silent p v c = drv_setProperty ops p v c"
  by (simp add: sig_setProperty_def silent_def bindE_Inr split: handle.splits)

lemma sig_dynamicCall_silent: "sig_dynamicCall ops silent m as c = drv_dynamicCall ops m as c"
  by (simp add: sig_dynamicCall_def silent_def bindE_Inr split: handle.splits)

lemmas sig_silent = sig_property_silent sig_setProperty_silent sig_dynamicCall_silent

lemma isConnected_silent: "isConnected_sig ops silent c = isConnected ops c"
  by (simp add: isConnected_sig_def isConnected_def sig_silent Let_def cong: if_cong)

lemma getPosition_silent:
  "getPosition_sig env ops silent now serverTime clientTime c =
   getPosition env ops now serverTime clientTime c"
  by (simp add: getPosition_sig_def getPosition_def sig_silent Let_def cong: if_cong)

lemma checkParked_silent:
  "checkParked_sig env ops silent now serverTime clientTime c =
   checkParked env ops now serverTime clientTime c"
  by (simp add: checkParked_sig_def checkParked_def sig_silent getPosition_silent Let_def cong: if_cong)

lemma performCommunication_silent:
  "performCommunication_sig env ops silent now serverTime clientTime c =
   performCommunication env ops now serverTime clientTime c"
  by (simp add: performCommunication_sig_def performCommunication_def sig_silent
        isConnected_silent checkParked_silent Let_def cong: if_cong)

lemma sendGoto_silent: "sendGoto_sig env ops silent t c = sendGoto env ops t c"
  by (simp add: sendGoto_sig_def sendGoto_def sig_silent Let_def cong: if_cong)

lemma checkTracking_silent: "checkTracking_sig env ops silent t c = checkTracking env ops t c"
  by (simp add: checkTracking_sig_def checkTracking_def sig_silent sendGoto_silent Let_def cong: if_cong)

lemma checkUnpark_silent: "checkUnpark_sig env ops silent t c = checkUnpark env ops t c"
  by (simp add: checkUnpark_sig_def checkUnpark_def sig_silent checkTracking_silent Let_def cong: if_cong)

lemma telescopeGoto_silent: "telescopeGoto_sig env ops silent t c = telescopeGoto env ops t c"
  by (simp add: telescopeGoto_sig_def telescopeGoto_def sig_silent isConnected_silent
        checkUnpark_silent Let_def cong: if_cong)

subsection \<open>Filling the place markers\<close>

text \<open>A prefix without a percent sign holds no place marker and passes through
  \<^verbatim>\<open>arg\<close> unchanged; the decimal rendering of a number is such a prefix.\<close>

lemma minEscape_prefix: "CHR ''%'' \<notin> set p \<Longrightarrow> minEscape (p @ s) = minEscape s"
  by (induction p) auto

lemma replaceEscapes_prefix:
  "CHR ''%'' \<notin> set p \<Longrightarrow> replaceEscapes n a 0 (p @ s) = p @ replaceEscapes n a 0 s"
  by (induction p) auto

lemma arg_prefix: "CHR ''%'' \<notin> set p \<Longrightarrow> arg (p @ s) a = p @ arg s a"
  by (simp add: arg_def minEscape_prefix replaceEscapes_prefix split: option.splits)

lemma digit_not_percent: "k < 10 \<Longrightarrow> char_of (48 + k :: nat) \<noteq> CHR ''%''"
proof
  assume k: "k < 10" and "char_of (48 + k) = CHR ''%''"
  then have "(of_char (char_of (48 + k)) :: nat) = of_char CHR ''%''" by simp
  with k show False by simp
qed

lemma decimal_no_percent: "CHR ''%'' \<notin> set (decimal n)"
proof (induction n rule: decimal.induct)
  case (1 n)
  show ?case
  proof (cases "n < 10")
    case True
    with digit_not_percent [of n] show ?thesis
      by (auto simp: decimal.simps [of n])
  next
    case False
    with 1 digit_not_percent [of "n mod 10"] show ?thesis
      by (auto simp: decimal.simps [of n])
  qed
qed

lemma number_no_percent: "CHR ''%'' \<notin> set (number i)"
  by (simp add: number_def decimal_no_percent)

lemmas escape_defs = arg_def parseEscape_def parseDigits_def digitValue_def

lemma arg_first:
  "arg (''%1: ASCOM driver error:'' @ [CHR 0x0A] @ ''Code: %2'' @ [CHR 0x0A] @
        ''Source: %3'' @ [CHR 0x0A] @ ''Description: %4'') a =
   a @ '': ASCOM driver error:'' @ [CHR 0x0A] @ ''Code: %2'' @ [CHR 0x0A] @
        ''Source: %3'' @ [CHR 0x0A] @ ''Description: %4''"
  by (simp add: escape_defs)

lemma arg_second:
  "arg ('': ASCOM driver error:'' @ [CHR 0x0A] @ ''Code: %2'' @ [CHR 0x0A] @
        ''Source: %3'' @ [CHR 0x0A] @ ''Description: %4'') a =
   '': ASCOM driver error:'' @ [CHR 0x0A] @ ''Code: '' @ a @ [CHR 0x0A] @
        ''Source: %3'' @ [CHR 0x0A] @ ''Description: %4''"
  by (simp add: escape_defs)

lemma arg_third:
  "arg (''%3'' @ [CHR 0x0A] @ ''Description: %4'') a =
   a @ [CHR 0x0A] @ ''Description: %4''"
  by (simp add: escape_defs)

lemma errorMessage_shape:
  assumes "CHR ''%'' \<notin> set nm"
  shows "errorMessage nm code source desc =
     nm @ '': ASCOM driver error:'' @ [CHR 0x0A] @ ''Code: '' @ number code @ [CHR 0x0A] @
     ''Source: '' @ desc @ [CHR 0x0A] @ ''Description: %4''"
proof -
  let ?r1 = "'': ASCOM driver error:'' @ [CHR 0x0A] @ ''Code: %2'' @ [CHR 0x0A] @
        ''Source: %3'' @ [CHR 0x0A] @ ''Description: %4''"
  let ?p = "nm @ '': ASCOM driver error:'' @ [CHR 0x0A] @ ''Code: '' @ number code @
        [CHR 0x0A] @ ''Source: ''"
  have 1: "arg (''%1: ASCOM driver error:'' @ [CHR 0x0A] @ ''Code: %2'' @ [CHR 0x0A] @
        ''Source: %3'' @ [CHR 0x0A] @ ''Description: %4'') nm = nm @ ?r1"
    by (rule arg_first)
  have 2: "arg_int (nm @ ?r1) code =
      nm @ '': ASCOM driver error:'' @ [CHR 0x0A] @ ''Code: '' @ number code @ [CHR 0x0A] @
        ''Source: %3'' @ [CHR 0x0A] @ ''Description: %4''"
    unfolding arg_int_def arg_prefix [OF assms] arg_second ..
  have p: "CHR ''%'' \<notin> set ?p"
    using assms number_no_percent [of code] by simp
  have "arg (?p @ (''%3'' @ [CHR 0x0A] @ ''Description: %4'')) desc =
      ?p @ desc @ [CHR 0x0A] @ ''Description: %4''"
    unfolding arg_prefix [OF p] arg_third ..
  then have 3: "arg (nm @ '': ASCOM driver error:'' @ [CHR 0x0A] @ ''Code: '' @ number code @
        [CHR 0x0A] @ ''Source: %3'' @ [CHR 0x0A] @ ''Description: %4'') desc =
      ?p @ desc @ [CHR 0x0A] @ ''Description: %4''"
    by simp
  show ?thesis
    unfolding errorMessage_def 1 2 3 by simp
qed

subsection \<open>Unfolding concrete runs\<close>

lemmas run_defs =
  telescopeGoto_def checkUnpark_def checkTracking_def sendGoto_def
  performCommunication_def checkParked_def getPosition_def
  isConnected_def isInitialized_def
  drv_property_def drv_setProperty_def drv_dynamicCall_def bindE_def deleteDriver_def
  sim_ops_def readyMount_def toyHost_def client0_def qint64_add_def
  TelescopeClientAscom_def handleDriverException_def callLog_def reported_def Let_def

lemmas sig_defs =
  performCommunication_sig_def checkParked_sig_def getPosition_sig_def
  telescopeGoto_sig_def checkUnpark_sig_def checkTracking_sig_def sendGoto_sig_def
  isConnected_sig_def sig_property_def sig_setProperty_def sig_dynamicCall_def
  raiseOnRA_def raiseOnUnpark_def

section \<open>The claims\<close>

subsection \<open>Epoch conversion\<close>

text \<open>
  Claim C1 asks that a target handed to \<^verbatim>\<open>telescopeGoto\<close>, which is in the
  standard-epoch frame, is converted to the current-epoch frame exactly once when the
  equinox mode is current-epoch. The code converts once, but with \<open>equinoxEquToJ2000\<close>,
  the conversion from the current epoch to the standard epoch: for every host, driver
  and target, every slew call that \<^verbatim>\<open>telescopeGoto\<close> issues in current-epoch mode
  carries the hour angle and declination of \<open>equinoxEquToJ2000 env t\<close>.
\<close>

theorem goto_slews_to_equinoxEquToJ2000:
  assumes "equinox c = EquinoxJNow"
  shows "\<exists>c'. telescopeGoto env ops t c = Inr c' \<and>
           list_all
             (\<lambda>as. as = [fst (rectToSphe env (equinoxEquToJ2000 env t)) * (12 / pi),
                          snd (rectToSphe env (equinoxEquToJ2000 env t)) * (180 / pi)])
             (slewArguments (callLog c c'))"
proof -
  from telescopeGoto_cases [of env ops t c]
  obtain c' where r: "telescopeGoto env ops t c = Inr c'"
    and o: "callLog c c' = [] \<or> gotoTrace (slewArgs env (equinox c) t) (callLog c c')"
    by blast
  from o have "list_all (\<lambda>as. as = slewArgs env (equinox c) t) (slewArguments (callLog c c'))"
    by (auto dest: gotoTrace_slews)
  with assms r show ?thesis by (auto simp: slewArgs_def Let_def)
qed

text \<open>
  On the simulated mount in current-epoch mode, a goto to \<open>(3, 1)\<close> slews to the
  coordinates of \<open>(2, 1)\<close>, the target taken through \<open>equinoxEquToJ2000\<close>, where the
  conversion to the current epoch gives \<open>(4, 1)\<close>.
\<close>

theorem goto_slews_to_equinoxEquToJ2000_witness:
  "equinox (client0 EquinoxJNow (Ax readyMount)) = EquinoxJNow \<and>
   telescopeGoto toyHost sim_ops (3, 1) (client0 EquinoxJNow (Ax readyMount)) =
     Inr ((client0 EquinoxJNow
             (Ax (readyMount\<lparr>sim_ra := 2 * (12 / pi), sim_dec := 1 * (180 / pi)\<rparr>)))
          \<lparr>accessLog :=
             [Read P_CONNECTED (VBool True), Read P_PARKED (VBool False),
              Read P_TRACKING (VBool True), Read P_CAN_SLEW_ASYNCHRONOUSLY (VBool True),
              Invoke M_SLEW_ASYNCHRONOUSLY [2 * (12 / pi), 1 * (180 / pi)]]\<rparr>) \<and>
   equinoxEquToJ2000 toyHost (3, 1) = (2, 1) \<and>
   j2000ToEquinoxEqu toyHost (3, 1) = (4, 1)"
  using goto_slews_to_equinoxEquToJ2000
    [of "client0 EquinoxJNow (Ax readyMount)" toyHost sim_ops "(3, 1)"]
  by (simp add: run_defs)

text \<open>On the ingestion side the stored sample is the raw reading converted to a
  direction and, in current-epoch mode, taken once through \<open>equinoxEquToJ2000\<close>.\<close>

lemma poll_stores_converted_sample:
  "\<exists>c'. performCommunication env ops now serverTime clientTime c = Inr c' \<and>
     (interpolatedPosition c' = interpolatedPosition c \<or>
      (\<exists>ra dec. interpolatedPosition c' =
         interpolatedPosition c @ [(sampleOf env (equinox c) ra dec, clientTime, serverTime)]))"
proof -
  from performCommunication_cases [of env ops now serverTime clientTime c]
  obtain c' where r: "performCommunication env ops now serverTime clientTime c = Inr c'"
    and o: "c' = c \<or> pollOutcome env now serverTime clientTime c c'"
    by blast
  from o have "interpolatedPosition c' = interpolatedPosition c \<or>
      (\<exists>ra dec. interpolatedPosition c' =
         interpolatedPosition c @ [(sampleOf env (equinox c) ra dec, clientTime, serverTime)])"
  proof
    assume "c' = c"
    then show ?thesis by simp
  next
    assume "pollOutcome env now serverTime clientTime c c'"
    then show ?thesis
      by (cases rule: pollOutcome.cases) (auto simp: frame_fields)
  qed
  with r show ?thesis by blast
qed

subsection \<open>Construction with a refused connection\<close>

text \<open>
  Claim C2 asks that the constructor, when \<^verbatim>\<open>Connected\<close> reads back false after being
  set, releases the driver and touches it no more. The code releases the driver and
  goes on to read \<^verbatim>\<open>AtPark\<close> through the pointer it has just set to null: for every
  driver that binds and refuses the connection, construction ends in the dereference of
  the null pointer.
\<close>

theorem constructor_reads_released_driver:
  assumes "resolve params = Some d"
    and "\<not> toBool (fst (property ops P_CONNECTED
            (setProperty ops P_CONNECTED (VBool True) (snd (property ops P_CAN_SLEW d)))))"
  shows "TelescopeClientAscom env ops resolve junk now nm params eq =
           Inl NullPointerDereference"
proof -
  obtain canSlew d1 where 1: "property ops P_CAN_SLEW d = (canSlew, d1)"
    by (cases "property ops P_CAN_SLEW d")
  obtain ok d2 where 2:
    "property ops P_CONNECTED (setProperty ops P_CONNECTED (VBool True) d1) = (ok, d2)"
    by (cases "property ops P_CONNECTED (setProperty ops P_CONNECTED (VBool True) d1)")
  from assms(2) 1 2 have "\<not> toBool ok" by simp
  with assms(1) 1 2 show ?thesis
    by (simp add: TelescopeClientAscom_def drv_property_def drv_setProperty_def bindE_def
          deleteDriver_def)
qed

theorem constructor_reads_released_driver_witness:
  "(\<lambda>s. Some (readyMount\<lparr>sim_connected := False, sim_connectable := False\<rparr>))
     ''Sim.Telescope'' =
     Some (readyMount\<lparr>sim_connected := False, sim_connectable := False\<rparr>) \<and>
   \<not> toBool (fst (property sim_ops P_CONNECTED
      (setProperty sim_ops P_CONNECTED (VBool True)
        (snd (property sim_ops P_CAN_SLEW
           (readyMount\<lparr>sim_connected := False, sim_connectable := False\<rparr>)))))) \<and>
   TelescopeClientAscom toyHost sim_ops
     (\<lambda>s. Some (readyMount\<lparr>sim_connected := False, sim_connectable := False\<rparr>))
     0 1000 ''T'' ''Sim.Telescope'' EquinoxJ2000 = Inl NullPointerDereference"
  using constructor_reads_released_driver
    [of "\<lambda>s. Some (readyMount\<lparr>sim_connected := False, sim_connectable := False\<rparr>)"
        "''Sim.Telescope''"
        "readyMount\<lparr>sim_connected := False, sim_connectable := False\<rparr>"
        sim_ops toyHost 0 1000 "''T''" EquinoxJ2000]
  by (simp add: sim_ops_def readyMount_def)

subsection \<open>After a driver fault\<close>



text \<open>The same in \<^verbatim>\<open>telescopeGoto\<close>: a fault raised during \<^verbatim>\<open>Unpark()\<close> is followed
  by the read of \<^verbatim>\<open>Tracking\<close> through the null pointer.\<close>

lemma goto_fault_in_flight:
  "telescopeGoto_sig toyHost sim_ops raiseOnUnpark (3, 1)
     (client0 EquinoxJ2000 (Ax (readyMount\<lparr>sim_atPark := True\<rparr>))) =
   Inl NullPointerDereference"
  by (simp add: run_defs sig_defs)

text \<open>A fault raised during the last driver call of an operation lets the operation
  return; the session goes on, uninitialized.\<close>

lemma fault_in_last_call:
  "map_sum id driver
     (telescopeGoto_sig toyHost sim_ops
        \<lparr>onProperty = (\<lambda>p d. None), onSetProperty = (\<lambda>p v d. None),
         onDynamicCall = (\<lambda>m as d. Some (5, ''src'', ''boom'', ''help''))\<rparr>
        (3, 1) (client0 EquinoxJ2000 (Ax readyMount))) = Inr NullPtr"
  by (simp add: run_defs sig_defs)

subsection \<open>The fault message\<close>

text \<open>
  Claim C4 asks for the message \<^verbatim>\<open><name>: driver error:\nCode: <n>\nSource: <s>\nDescription: <d>\<close>
  with name, code, source and description in the four slots. The handler gives
  \<^verbatim>\<open>arg\<close> three values for the four place markers: name, code and description. So
  for every fault, on a session whose name holds no percent sign, the emitted message
  has the description in the source slot and the marker \<^verbatim>\<open>%4\<close> left in the
  description slot; the source appears nowhere.
\<close>

theorem fault_message_shape:
  assumes "CHR ''%'' \<notin> set (name c)"
  shows "emitted (handleDriverException code source desc hlp c) =
     emitted c @
     [name c @ '': ASCOM driver error:'' @ [CHR 0x0A] @ ''Code: '' @ number code @
      [CHR 0x0A] @ ''Source: '' @ desc @ [CHR 0x0A] @ ''Description: %4'']"
  using errorMessage_shape [OF assms]
  by (simp add: handleDriverException_def deleteDriver_def Let_def split: handle.splits)

text \<open>For the session \<^verbatim>\<open>T\<close>, code 5, source \<^verbatim>\<open>src\<close> and description
  \<^verbatim>\<open>boom\<close>:\<close>

theorem fault_message_shape_witness:
  "CHR ''%'' \<notin> set (name (client0 EquinoxJ2000 (Ax readyMount))) \<and>
   emitted (handleDriverException 5 ''src'' ''boom'' ''help''
      (client0 EquinoxJ2000 (Ax readyMount))) =
   [''T: ASCOM driver error:'' @ [CHR 0x0A] @ ''Code: 5'' @ [CHR 0x0A] @
    ''Source: boom'' @ [CHR 0x0A] @ ''Description: %4'']"
proof -
  have five: "number 5 = ''5''" by code_simp
  from fault_message_shape
    [of "client0 EquinoxJ2000 (Ax readyMount)" 5 "''src''" "''boom''" "''help''"]
  show ?thesis by (simp add: client0_def five)
qed

text \<open>The message is the same whatever the source of the fault.\<close>

lemma fault_message_ignores_source:
  "handleDriverException code source desc hlp c = handleDriverException code source' desc hlp c"
  by (simp add: handleDriverException_def errorMessage_def)

subsection \<open>Throttling of the position read\<close>

text \<open>
  Claim C5, as the code has it: the reads of the position (\<^verbatim>\<open>RightAscension\<close> and
  \<^verbatim>\<open>Declination\<close>) are throttled. For every sequence of \<^verbatim>\<open>performCommunication\<close>
  calls, in any state of the client, with a non-negative interval and clock readings
  for which \<open>now + POSITION_REFRESH_INTERVAL\<close> does not overflow, each call that reads
  the position does so at least one interval after every earlier call that read it.
  This holds in particular when \<open>now\<close> is strictly increasing.
\<close>

theorem position_reads_spaced:
  assumes "0 \<le> POSITION_REFRESH_INTERVAL env"
    and "list_all (\<lambda>(now, serverTime, clientTime).
           - (2 ^ 63) \<le> now \<and> now + POSITION_REFRESH_INTERVAL env < 2 ^ 63) calls"
  shows "spaced (POSITION_REFRESH_INTERVAL env) (pollTimes env ops calls c)"
  by (rule pollTimes_bounds [OF assms, THEN conjunct2])

theorem position_reads_spaced_witness:
  "0 \<le> POSITION_REFRESH_INTERVAL toyHost \<and>
   list_all (\<lambda>(now, serverTime, clientTime).
      - (2 ^ 63) \<le> now \<and> now + POSITION_REFRESH_INTERVAL toyHost < 2 ^ 63)
     [(200, 201, 202), (300, 301, 302), (5000200, 5000201, 5000202)] \<and>
   pollTimes toyHost sim_ops
     [(200, 201, 202), (300, 301, 302), (5000200, 5000201, 5000202)]
     (client0 EquinoxJ2000 (Ax readyMount)) = [200, 5000200] \<and>
   spaced (POSITION_REFRESH_INTERVAL toyHost)
     (pollTimes toyHost sim_ops
        [(200, 201, 202), (300, 301, 302), (5000200, 5000201, 5000202)]
        (client0 EquinoxJ2000 (Ax readyMount)))"
  using position_reads_spaced
    [of toyHost "[(200, 201, 202), (300, 301, 302), (5000200, 5000201, 5000202)]"
        sim_ops "client0 EquinoxJ2000 (Ax readyMount)"]
  by (simp add: run_defs)

text \<open>
  The claim as stated, that the device is read at most once per interval, fails: the
  reads of the connection and parked properties are not throttled. Two calls one
  microsecond apart, both before the scheduled poll time, each read both from the
  device.
\<close>

theorem status_reads_not_throttled:
  "bindE (performCommunication toyHost sim_ops 50 50 50 (client0 EquinoxJ2000 (Ax readyMount)))
     (performCommunication toyHost sim_ops 51 51 51) =
   Inr ((client0 EquinoxJ2000 (Ax readyMount))
        \<lparr>accessLog :=
           [Read P_CONNECTED (VBool True), Read P_PARKED (VBool False),
            Read P_CONNECTED (VBool True), Read P_PARKED (VBool False)]\<rparr>)"
  by (simp add: run_defs)

subsection \<open>Polling a parked mount\<close>

text \<open>
  Claim C6, as the code has it: when the device reports parked,
  \<^verbatim>\<open>performCommunication\<close> produces no sample, does not read the position, and leaves
  the next scheduled poll time as it was.
\<close>

theorem poll_parked_keeps_schedule:
  "\<exists>c'. performCommunication env ops now serverTime clientTime c = Inr c' \<and>
     (reported P_PARKED True (callLog c c') \<longrightarrow>
        interpolatedPosition c' = interpolatedPosition c \<and>
        timeToGetPosition c' = timeToGetPosition c \<and>
        \<not> list_ex isPositionRead (callLog c c'))"
proof -
  from performCommunication_cases [of env ops now serverTime clientTime c]
  obtain c' where r: "performCommunication env ops now serverTime clientTime c = Inr c'"
    and o: "c' = c \<or> pollOutcome env now serverTime clientTime c c'"
    by blast
  from o have "reported P_PARKED True (callLog c c') \<longrightarrow>
        interpolatedPosition c' = interpolatedPosition c \<and>
        timeToGetPosition c' = timeToGetPosition c \<and>
        \<not> list_ex isPositionRead (callLog c c')"
  proof
    assume "c' = c"
    then show ?thesis by (simp add: callLog_self reported_def)
  next
    assume "pollOutcome env now serverTime clientTime c c'"
    then show ?thesis
      by (cases rule: pollOutcome.cases)
         (auto simp: frame_callLog frame_callLog_update frame_fields connUp_no_position
            connRefused_status reported_def dest: connUp_not_parked [unfolded reported_def])
  qed
  with r show ?thesis by blast
qed

theorem poll_parked_keeps_schedule_witness:
  "performCommunication toyHost sim_ops 200 201 202
     (client0 EquinoxJ2000 (Ax (readyMount\<lparr>sim_atPark := True\<rparr>))) =
     Inr ((client0 EquinoxJ2000 (Ax (readyMount\<lparr>sim_atPark := True\<rparr>)))
          \<lparr>accessLog := [Read P_CONNECTED (VBool True), Read P_PARKED (VBool True)]\<rparr>) \<and>
   reported P_PARKED True [Read P_CONNECTED (VBool True), Read P_PARKED (VBool True)]"
  using poll_parked_keeps_schedule
    [of toyHost sim_ops 200 201 202 "client0 EquinoxJ2000 (Ax (readyMount\<lparr>sim_atPark := True\<rparr>))"]
  by (simp add: run_defs)

text \<open>
  The claim as stated fails: a poll is due at 200 (the scheduled time is 100) and the
  mount is parked; the scheduled time stays 100 and is not moved to 200 plus the
  interval.
\<close>

theorem poll_parked_not_rescheduled:
  "map_sum id timeToGetPosition
     (performCommunication toyHost sim_ops 200 201 202
        (client0 EquinoxJ2000 (Ax (readyMount\<lparr>sim_atPark := True\<rparr>)))) = Inr 100 \<and>
   qint64_add 200 (POSITION_REFRESH_INTERVAL toyHost) = 5000200"
  by (simp add: run_defs)

subsection \<open>A call before the scheduled time\<close>




subsection \<open>Goto without the capability\<close>




subsection \<open>Goto on a mount that cannot be unparked\<close>



subsection \<open>Connected implies initialized\<close>

text \<open>
  Claim C10: on a client that is not initialized, \<^verbatim>\<open>isConnected\<close> returns false and
  leaves the client, and with it the log of driver accesses, as it was.
\<close>

theorem isConnected_uninitialized:
  "\<not> isInitialized c \<Longrightarrow> isConnected ops c = Inr (False, c)"
  by (simp add: isConnected_def)

theorem isConnected_uninitialized_witness:
  "\<not> isInitialized (client0 EquinoxJ2000 NullPtr) \<and>
   isConnected sim_ops (client0 EquinoxJ2000 NullPtr) =
     Inr (False, client0 EquinoxJ2000 NullPtr)"
  using isConnected_uninitialized [of "client0 EquinoxJ2000 NullPtr" sim_ops]
  by (simp add: isInitialized_def client0_def)

end
